theory Spec2Isabelle
  imports Main "HOL-Library.Char_ord" "HOL-Library.List_Lexorder" "HOL-Library.Sublist"
    "HOL-Library.Multiset"
begin

section \<open>Data model (types.ts)\<close>

text \<open>
  Strings are lists of code units below 256; the default array sort of JavaScript compares
  strings code unit by code unit, which is the lexicographic order on \<open>char list\<close>.
  A field that the running code tests for \<open>undefined\<close> is an \<open>option\<close>.
  Field names follow the interfaces; \<open>id\<close>, \<open>order\<close> and the second
  \<open>enabled\<close> are prefixed because the plain names are taken.
\<close>

record ShortcutKey =
  key :: string
  modifiers :: "string list"
  chord_enabled :: "bool option"

record ServiceSite =
  site_id :: string
  name :: string
  description :: string
  category :: string
  urlTemplate :: string
  icon :: string
  enabled :: bool
  site_order :: int
  isBuiltIn :: bool
  shortcuts :: "ShortcutKey option"

record ExtensionSettings =
  defaultSiteId :: "string option"
  openInNewTab :: "bool option"
  showOnHover :: "bool option"
  enableShortcuts :: "bool option"

record ExtensionConfig =
  sites :: "ServiceSite list"
  settings :: ExtensionSettings
  version :: "string option"

record ShortcutConflict =
  siteId :: string
  siteName :: string
  shortcut :: ShortcutKey

section \<open>Shortcut strings (ConfigManager)\<close>

definition MODIFIER_KEYS :: "string list" where
  "MODIFIER_KEYS = [''ctrl'', ''alt'', ''shift'', ''meta'']"

text \<open>
  The keys that are one character long are written as the characters of a string:
  \<open>keys_of ''ab''\<close> is the list \<open>[''a'', ''b'']\<close>.
\<close>

definition keys_of :: "string \<Rightarrow> string list" where
  "keys_of cs = map (\<lambda>c. [c]) cs"

definition SHORTCUT_KEYS :: "string list" where
  "SHORTCUT_KEYS =
     keys_of ''1234567890'' @
     keys_of ''abcdefghijklm'' @
     keys_of ''nopqrstuvwxyz'' @
     [''F1'', ''F2'', ''F3'', ''F4'', ''F5'', ''F6'', ''F7'', ''F8'', ''F9'', ''F10'', ''F11'', ''F12'']"

text \<open>\<open>Array.prototype.join\<close> and \<open>String.prototype.split\<close> with a one-character separator.\<close>

fun js_join :: "string \<Rightarrow> string list \<Rightarrow> string" where
  "js_join sep [] = []"
| "js_join sep [x] = x"
| "js_join sep (x # y # ys) = x @ sep @ js_join sep (y # ys)"

fun js_split :: "char \<Rightarrow> string \<Rightarrow> string list" where
  "js_split c [] = [[]]"
| "js_split c (x # xs) =
     (if x = c then [] # js_split c xs
      else (case js_split c xs of [] \<Rightarrow> [[x]] | p # ps \<Rightarrow> (x # p) # ps))"

text \<open>
  \<open>formatShortcutString\<close> calls \<open>shortcut.modifiers.sort()\<close>, which sorts the array of
  the argument in place. The model returns the string together with the argument as the
  call leaves it.
\<close>

definition formatShortcutString :: "ShortcutKey \<Rightarrow> string \<times> ShortcutKey" where
  "formatShortcutString sh =
     (let ms = sort (modifiers sh)
      in (js_join ''+'' (ms @ [key sh]), sh\<lparr>modifiers := ms\<rparr>))"

definition parseShortcutString :: "string \<Rightarrow> ShortcutKey option" where
  "parseShortcutString shortcutStr =
     (let parts = js_split (CHR ''+'') shortcutStr
      in if length parts < 2 then None
         else Some \<lparr>key = last parts, modifiers = butlast parts, chord_enabled = Some True\<rparr>)"

definition validateShortcut :: "ShortcutKey \<Rightarrow> bool" where
  "validateShortcut sh =
     (if length (modifiers sh) = 0 then False
      else if \<not> list_all (\<lambda>m. m \<in> set MODIFIER_KEYS) (modifiers sh) then False
      else if key sh \<notin> set SHORTCUT_KEYS then False
      else True)"


section \<open>Default registry (defaults.ts)\<close>

definition DEFAULT_SITES :: "ServiceSite list" where
  "DEFAULT_SITES =
    [\<lparr>site_id = ''github1s'', name = ''GitHub1s'', description = ''sites.descriptions.github1s'',
      category = ''source'', urlTemplate = ''https://github1s.com/{REPO_PATH}'', icon = ''github'',
      enabled = True, site_order = 1, isBuiltIn = True,
      shortcuts = Some \<lparr>key = ''1'', modifiers = [''ctrl'', ''shift''], chord_enabled = Some True\<rparr>\<rparr>,
     \<lparr>site_id = ''github_dev'', name = ''GitHub.dev'', description = ''sites.descriptions.github_dev'',
      category = ''source'', urlTemplate = ''https://github.dev/{REPO_PATH}/'', icon = ''github'',
      enabled = True, site_order = 2, isBuiltIn = True,
      shortcuts = Some \<lparr>key = ''2'', modifiers = [''ctrl'', ''shift''], chord_enabled = Some True\<rparr>\<rparr>,
     \<lparr>site_id = ''sourcegraph'', name = ''Sourcegraph'', description = ''sites.descriptions.sourcegraph'',
      category = ''source'', urlTemplate = ''https://sourcegraph.com/github.com/{REPO_PATH}'',
      icon = ''search'', enabled = True, site_order = 3, isBuiltIn = True,
      shortcuts = Some \<lparr>key = ''3'', modifiers = [''ctrl'', ''shift''], chord_enabled = Some True\<rparr>\<rparr>,
     \<lparr>site_id = ''zread'', name = ''ZRead'', description = ''sites.descriptions.zread'',
      category = ''ai'', urlTemplate = ''https://zread.ai/{REPO_PATH}'', icon = ''external-link'',
      enabled = True, site_order = 4, isBuiltIn = True,
      shortcuts = Some \<lparr>key = ''4'', modifiers = [''ctrl'', ''shift''], chord_enabled = Some True\<rparr>\<rparr>,
     \<lparr>site_id = ''deepwiki'', name = ''DeepWiki'', description = ''sites.descriptions.deepwiki'',
      category = ''ai'', urlTemplate = ''https://deepwiki.com/{REPO_PATH}'', icon = ''file-text'',
      enabled = True, site_order = 5, isBuiltIn = True,
      shortcuts = Some \<lparr>key = ''5'', modifiers = [''ctrl'', ''shift''], chord_enabled = Some True\<rparr>\<rparr>]"

definition DEFAULT_SETTINGS :: ExtensionSettings where
  "DEFAULT_SETTINGS =
    \<lparr>defaultSiteId = Some ''github_dev'', openInNewTab = Some True,
     showOnHover = Some False, enableShortcuts = Some True\<rparr>"

definition DEFAULT_CONFIG :: ExtensionConfig where
  "DEFAULT_CONFIG = \<lparr>sites = DEFAULT_SITES, settings = DEFAULT_SETTINGS, version = Some ''1.0.0''\<rparr>"

definition MAX_CUSTOM_SITES :: nat where
  "MAX_CUSTOM_SITES = 20"

text \<open>
  \<open>URL_TEMPLATE_REGEX = /^https?:\/\/.+\{repoPath\}.*/\<close> and its \<open>test\<close>. The dot
  matches every code unit but a line terminator (of those below 256: LF and CR); the
  trailing \<open>.*\<close> matches the empty string, so it constrains nothing.
\<close>

definition line_terminator :: "char \<Rightarrow> bool" where
  "line_terminator c = (c = CHR 0x0A \<or> c = CHR 0x0D)"

fun dots_then :: "string \<Rightarrow> string \<Rightarrow> bool" where
  "dots_then tok [] = False"
| "dots_then tok (c # cs) = (\<not> line_terminator c \<and> (prefix tok cs \<or> dots_then tok cs))"

definition URL_TEMPLATE_REGEX_test :: "string \<Rightarrow> bool" where
  "URL_TEMPLATE_REGEX_test s =
     ((prefix ''https://'' s \<and> dots_then ''{repoPath}'' (drop 8 s)) \<or>
      (prefix ''http://'' s \<and> dots_then ''{repoPath}'' (drop 7 s)))"

section \<open>Persistence (StorageManager): the typed view\<close>

text \<open>
  \<open>ConfigManager\<close> reads and writes the store through \<open>StorageManager\<close> and takes what it
  gets as an \<open>ExtensionConfig\<close>. This section models the store as far as the manager sees
  it: nothing stored (or any falsy value), a truthy value that is not an object, or an
  object, of which \<open>doc_sites\<close> is \<open>Some\<close> when \<open>Array.isArray(config.sites)\<close>, with site
  objects as entries, and \<open>doc_settings\<close> is \<open>Some\<close> when \<open>config.settings\<close> is an object.
  The store is one cell: a \<open>set\<close> replaces its value. The section on untyped values
  near the end of the definitions models \<open>StorageManager\<close> on every value that the store
  can hold, with the rejected read and the exceptions; the functions of this section are
  its restriction to documents of site objects (lemmas \<open>getConfig_typed\<close> and
  \<open>saveConfig_typed\<close>).
\<close>

record document =
  doc_sites :: "ServiceSite list option"
  doc_settings :: "ExtensionSettings option"
  doc_version :: "string option"

datatype stored = Absent | NotObject | Object document

datatype error =
    MaxCustomSites
  | NameEmpty
  | InvalidUrlTemplate
  | InvalidCategory
  | IconEmpty
  | SiteIdExists
  | SiteDoesNotExist
  | BuiltInNotDeletable
  | SitesDoNotExist "string list"
  | ShortcutConflictError "string list"
  | InvalidConfigFormat
  | InvalidImportFormat
  | JsonSyntaxError
  | TypeError

definition getDefaultConfig :: ExtensionConfig where
  "getDefaultConfig = DEFAULT_CONFIG"

fun isValidConfig :: "stored \<Rightarrow> bool" where
  "isValidConfig Absent = False"
| "isValidConfig NotObject = False"
| "isValidConfig (Object d) = (doc_sites d \<noteq> None \<and> doc_settings d \<noteq> None)"

text \<open>The value under the type \<open>ExtensionConfig\<close> that the type guard gives it.\<close>

definition as_config :: "document \<Rightarrow> ExtensionConfig" where
  "as_config d = \<lparr>sites = the (doc_sites d), settings = the (doc_settings d), version = doc_version d\<rparr>"

definition as_stored :: "ExtensionConfig \<Rightarrow> stored" where
  "as_stored c =
     Object \<lparr>doc_sites = Some (sites c), doc_settings = Some (settings c),
             doc_version = version c\<rparr>"

definition migrateShortcut :: "ShortcutKey \<Rightarrow> ShortcutKey" where
  "migrateShortcut sh =
     sh\<lparr>chord_enabled := (if chord_enabled sh \<noteq> None then chord_enabled sh else Some True)\<rparr>"

definition migrateConfig :: "ExtensionConfig \<Rightarrow> ExtensionConfig" where
  "migrateConfig config =
     (if version config \<noteq> version DEFAULT_CONFIG then
        let migratedSites =
              map (\<lambda>site. site\<lparr>shortcuts :=
                      (case shortcuts site of Some sh \<Rightarrow> Some (migrateShortcut sh)
                                            | None \<Rightarrow> shortcuts site)\<rparr>) (sites config)
        in config\<lparr>sites := migratedSites, version := version DEFAULT_CONFIG\<rparr>
      else config)"

definition getConfig :: "stored \<Rightarrow> ExtensionConfig" where
  "getConfig config =
     (case config of
        Object d \<Rightarrow> if isValidConfig config then migrateConfig (as_config d)
                    else getDefaultConfig
      | _ \<Rightarrow> getDefaultConfig)"

definition saveConfig :: "ExtensionConfig \<Rightarrow> stored \<Rightarrow> (error + unit) \<times> stored" where
  "saveConfig config st =
     (if \<not> isValidConfig (as_stored config) then (Inl InvalidConfigFormat, st)
      else (Inr (), as_stored (config\<lparr>version := version DEFAULT_CONFIG\<rparr>)))"

definition getSites :: "stored \<Rightarrow> ServiceSite list" where
  "getSites st = sites (getConfig st)"

definition saveSites :: "ServiceSite list \<Rightarrow> stored \<Rightarrow> (error + unit) \<times> stored" where
  "saveSites ss st = saveConfig ((getConfig st)\<lparr>sites := ss\<rparr>) st"

section \<open>Configuration manager (ConfigManager)\<close>

subsection \<open>String helpers of the JavaScript library\<close>

definition js_whitespace :: "char \<Rightarrow> bool" where
  "js_whitespace c = (c \<in> set [CHR 0x09, CHR 0x0A, CHR 0x0B, CHR 0x0C, CHR 0x0D, CHR 0x20, CHR 0xA0])"

definition js_trim :: "string \<Rightarrow> string" where
  "js_trim s = rev (dropWhile js_whitespace (rev (dropWhile js_whitespace s)))"

definition js_toLowerCase_char :: "char \<Rightarrow> char" where
  "js_toLowerCase_char c =
     (let n = (of_char c :: nat)
      in if (65 \<le> n \<and> n \<le> 90) \<or> (192 \<le> n \<and> n \<le> 222 \<and> n \<noteq> 215)
         then char_of (n + 32) else c)"

definition js_toLowerCase :: "string \<Rightarrow> string" where
  "js_toLowerCase s = map js_toLowerCase_char s"

fun show_nat :: "nat \<Rightarrow> string" where
  "show_nat n =
     (if n < 10 then [char_of (48 + n)]
      else show_nat (n div 10) @ [char_of (48 + n mod 10)])"

declare show_nat.simps [simp del]

fun indexOf :: "string \<Rightarrow> string \<Rightarrow> nat option" where
  "indexOf pat [] = (if pat = [] then Some 0 else None)"
| "indexOf pat (c # cs) =
     (if prefix pat (c # cs) then Some 0 else map_option Suc (indexOf pat cs))"

text \<open>
  \<open>GetSubstitution\<close> for a string pattern (no captures): in the replacement text
  \<open>$$\<close> stands for a dollar sign, \<open>$&\<close> for the matched text, \<open>$`\<close> for the text
  before the match and \<open>$'\<close> for the text after it; any other character is copied.
\<close>

fun getSubstitution :: "string \<Rightarrow> string \<Rightarrow> string \<Rightarrow> string \<Rightarrow> string" where
  "getSubstitution matched preceding following [] = []"
| "getSubstitution matched preceding following [c] = [c]"
| "getSubstitution matched preceding following (c # d # r) =
     (if c = CHR ''$'' then
        (if d = CHR ''$'' then CHR ''$'' # getSubstitution matched preceding following r
         else if d = CHR ''&'' then matched @ getSubstitution matched preceding following r
         else if d = CHR 0x60 then preceding @ getSubstitution matched preceding following r
         else if d = CHR 0x27 then following @ getSubstitution matched preceding following r
         else c # getSubstitution matched preceding following (d # r))
      else c # getSubstitution matched preceding following (d # r))"

text \<open>\<open>String.prototype.replace\<close> with a string pattern: the first occurrence only.\<close>

definition js_replace :: "string \<Rightarrow> string \<Rightarrow> string \<Rightarrow> string" where
  "js_replace s pat replaceValue =
     (case indexOf pat s of
        None \<Rightarrow> s
      | Some pos \<Rightarrow>
          (let preceding = take pos s; following = drop (pos + length pat) s
           in preceding @ getSubstitution pat preceding following replaceValue @ following))"

fun findIndex :: "('a \<Rightarrow> bool) \<Rightarrow> 'a list \<Rightarrow> nat option" where
  "findIndex P [] = None"
| "findIndex P (x # xs) = (if P x then Some 0 else map_option Suc (findIndex P xs))"

subsection \<open>Sites\<close>

text \<open>
  \<open>CreateSiteInput\<close> is \<open>ServiceSite\<close> without \<open>id\<close>, \<open>isBuiltIn\<close> and \<open>order\<close>;
  \<open>addSite\<close> overwrites these three fields of whatever it is given, so an input is modelled
  as a \<open>ServiceSite\<close> of which they are not read.
\<close>

type_synonym CreateSiteInput = ServiceSite

record UpdateSiteInput =
  upd_name :: "string option"
  upd_description :: "string option"
  upd_category :: "string option"
  upd_urlTemplate :: "string option"
  upd_icon :: "string option"
  upd_enabled :: "bool option"
  upd_order :: "int option"
  upd_shortcuts :: "ShortcutKey option option"

definition validateSiteInput :: "CreateSiteInput \<Rightarrow> error option" where
  "validateSiteInput input =
     (if name input = [] \<or> length (js_trim (name input)) = 0 then Some NameEmpty
      else if urlTemplate input = [] \<or> \<not> URL_TEMPLATE_REGEX_test (urlTemplate input)
        then Some InvalidUrlTemplate
      else if category input \<notin> set [''source'', ''ai''] then Some InvalidCategory
      else if icon input = [] \<or> length (js_trim (icon input)) = 0 then Some IconEmpty
      else None)"

text \<open>\<open>generateSiteId\<close>; the argument \<open>now\<close> is \<open>Date.now()\<close>.\<close>

definition slug_char :: "char \<Rightarrow> bool" where
  "slug_char c = ((CHR ''a'' \<le> c \<and> c \<le> CHR ''z'') \<or> (CHR ''0'' \<le> c \<and> c \<le> CHR ''9''))"

fun squeeze_dashes :: "string \<Rightarrow> string" where
  "squeeze_dashes [] = []"
| "squeeze_dashes [c] = [c]"
| "squeeze_dashes (c # d # r) =
     (if c = CHR ''-'' \<and> d = CHR ''-'' then squeeze_dashes (d # r)
      else c # squeeze_dashes (d # r))"

definition strip_dashes :: "string \<Rightarrow> string" where
  "strip_dashes s =
     (let t = (case s of [] \<Rightarrow> [] | c # r \<Rightarrow> if c = CHR ''-'' then r else s)
      in if t \<noteq> [] \<and> last t = CHR ''-'' then butlast t else t)"

definition generateSiteId :: "string \<Rightarrow> nat \<Rightarrow> string" where
  "generateSiteId nm now =
     (let base = strip_dashes (squeeze_dashes
                   (map (\<lambda>c. if slug_char c then c else CHR ''-'') (js_toLowerCase nm)))
      in ''custom-'' @ base @ ''-'' @ show_nat now)"

definition addSite :: "CreateSiteInput \<Rightarrow> nat \<Rightarrow> stored \<Rightarrow> (error + ServiceSite) \<times> stored" where
  "addSite input now st =
     (let ss = getSites st;
          customSitesCount = length (filter (\<lambda>site. \<not> isBuiltIn site) ss)
      in if customSitesCount \<ge> MAX_CUSTOM_SITES then (Inl MaxCustomSites, st)
         else (case validateSiteInput input of
                 Some e \<Rightarrow> (Inl e, st)
               | None \<Rightarrow>
                   (let i = generateSiteId (name input) now
                    in if list_ex (\<lambda>site. site_id site = i) ss then (Inl SiteIdExists, st)
                       else (let newSite = input\<lparr>site_id := i, isBuiltIn := False,
                                     site_order := fold max (map site_order ss) 0 + 1\<rparr>;
                                 updatedSites = ss @ [newSite]
                             in case saveSites updatedSites st of
                                  (Inl e, st') \<Rightarrow> (Inl e, st')
                                | (Inr _, st') \<Rightarrow> (Inr newSite, st')))))"

definition truthy :: "string option \<Rightarrow> bool" where
  "truthy v = (case v of None \<Rightarrow> False | Some s \<Rightarrow> s \<noteq> [])"

definition or_else :: "string option \<Rightarrow> string \<Rightarrow> string" where
  "or_else v d = (if truthy v then the v else d)"

text \<open>The object spread \<open>{...currentSite, ...updates}\<close>: a field present in the patch wins.\<close>

definition spread_site :: "ServiceSite \<Rightarrow> UpdateSiteInput \<Rightarrow> ServiceSite" where
  "spread_site cur u =
     cur\<lparr>name := (case upd_name u of Some v \<Rightarrow> v | None \<Rightarrow> name cur),
         description := (case upd_description u of Some v \<Rightarrow> v | None \<Rightarrow> description cur),
         category := (case upd_category u of Some v \<Rightarrow> v | None \<Rightarrow> category cur),
         urlTemplate := (case upd_urlTemplate u of Some v \<Rightarrow> v | None \<Rightarrow> urlTemplate cur),
         icon := (case upd_icon u of Some v \<Rightarrow> v | None \<Rightarrow> icon cur),
         enabled := (case upd_enabled u of Some v \<Rightarrow> v | None \<Rightarrow> enabled cur),
         site_order := (case upd_order u of Some v \<Rightarrow> v | None \<Rightarrow> site_order cur),
         shortcuts := (case upd_shortcuts u of Some v \<Rightarrow> v | None \<Rightarrow> shortcuts cur)\<rparr>"

definition updateSite :: "string \<Rightarrow> UpdateSiteInput \<Rightarrow> stored \<Rightarrow> (error + ServiceSite) \<times> stored" where
  "updateSite i updates st =
     (let ss = getSites st
      in case findIndex (\<lambda>site. site_id site = i) ss of
           None \<Rightarrow> (Inl SiteDoesNotExist, st)
         | Some siteIndex \<Rightarrow>
             (let currentSite = ss ! siteIndex;
                  check =
                    (if truthy (upd_name updates) \<or> truthy (upd_urlTemplate updates) \<or>
                        truthy (upd_category updates) \<or> truthy (upd_icon updates)
                     then validateSiteInput
                            (currentSite\<lparr>name := or_else (upd_name updates) (name currentSite),
                               description := or_else (upd_description updates) (description currentSite),
                               category := or_else (upd_category updates) (category currentSite),
                               urlTemplate := or_else (upd_urlTemplate updates) (urlTemplate currentSite),
                               icon := or_else (upd_icon updates) (icon currentSite),
                               enabled := (case upd_enabled updates of Some b \<Rightarrow> b
                                           | None \<Rightarrow> enabled currentSite)\<rparr>)
                     else None)
              in case check of
                   Some e \<Rightarrow> (Inl e, st)
                 | None \<Rightarrow>
                     (let updatedSite = spread_site currentSite updates
                      in case saveSites (ss[siteIndex := updatedSite]) st of
                           (Inl e, st') \<Rightarrow> (Inl e, st')
                         | (Inr _, st') \<Rightarrow> (Inr updatedSite, st'))))"

definition deleteSite :: "string \<Rightarrow> stored \<Rightarrow> (error + unit) \<times> stored" where
  "deleteSite i st =
     (let ss = getSites st
      in case find (\<lambda>s. site_id s = i) ss of
           None \<Rightarrow> (Inl SiteDoesNotExist, st)
         | Some site \<Rightarrow>
             if isBuiltIn site then (Inl BuiltInNotDeletable, st)
             else saveSites (filter (\<lambda>s. site_id s \<noteq> i) ss) st)"

definition no_updates :: UpdateSiteInput where
  "no_updates =
     \<lparr>upd_name = None, upd_description = None, upd_category = None, upd_urlTemplate = None,
      upd_icon = None, upd_enabled = None, upd_order = None, upd_shortcuts = None\<rparr>"

definition toggleSite :: "string \<Rightarrow> bool \<Rightarrow> stored \<Rightarrow> (error + ServiceSite) \<times> stored" where
  "toggleSite i en st = updateSite i (no_updates\<lparr>upd_enabled := Some en\<rparr>) st"

definition reorderSites :: "string list \<Rightarrow> stored \<Rightarrow> (error + ServiceSite list) \<times> stored" where
  "reorderSites siteIds st =
     (let ss = getSites st;
          existingIds = set (map site_id ss);
          missingIds = filter (\<lambda>i. i \<notin> existingIds) siteIds
      in if length missingIds > 0 then (Inl (SitesDoNotExist missingIds), st)
         else (let siteMap = map_of (rev (map (\<lambda>site. (site_id site, site)) ss));
                   reorderedSites =
                     map (\<lambda>(index, i). (the (siteMap i))\<lparr>site_order := int index + 1\<rparr>)
                         (enumerate 0 siteIds);
                   unorderedSites =
                     map (\<lambda>(index, site).
                            site\<lparr>site_order := int (length reorderedSites) + int index + 1\<rparr>)
                         (enumerate 0 (filter (\<lambda>site. site_id site \<notin> set siteIds) ss));
                   allSites = reorderedSites @ unorderedSites
               in case saveSites allSites st of
                    (Inl e, st') \<Rightarrow> (Inl e, st')
                  | (Inr _, st') \<Rightarrow> (Inr allSites, st')))"

definition generateSiteUrl :: "ServiceSite \<Rightarrow> string \<Rightarrow> string" where
  "generateSiteUrl site repoPath = js_replace (urlTemplate site) ''{REPO_PATH}'' repoPath"

subsection \<open>Shortcuts\<close>

definition shortcut_on :: "ServiceSite \<Rightarrow> bool" where
  "shortcut_on site = (case shortcuts site of None \<Rightarrow> False | Some sh \<Rightarrow> chord_enabled sh = Some True)"

text \<open>
  The \<open>forEach\<close> of \<open>checkShortcutConflicts\<close>. Formatting the shortcut of a site sorts its
  modifiers in the array \<open>sites\<close> itself, so the loop returns the sites as it leaves them
  next to the conflicts it found.
\<close>

fun conflicts_loop :: "string \<Rightarrow> string \<Rightarrow> ServiceSite list \<Rightarrow> ShortcutConflict list \<times> ServiceSite list" where
  "conflicts_loop excludeSiteId shortcutStr [] = ([], [])"
| "conflicts_loop excludeSiteId shortcutStr (site # rest) =
     (if site_id site \<noteq> excludeSiteId \<and> shortcut_on site then
        (let (existingShortcutStr, sh') = formatShortcutString (the (shortcuts site));
             site' = site\<lparr>shortcuts := Some sh'\<rparr>;
             (conflicts, rest') = conflicts_loop excludeSiteId shortcutStr rest
         in (if existingShortcutStr = shortcutStr
             then \<lparr>siteId = site_id site', siteName = name site', shortcut = sh'\<rparr> # conflicts
             else conflicts,
             site' # rest'))
      else (let (conflicts, rest') = conflicts_loop excludeSiteId shortcutStr rest
            in (conflicts, site # rest')))"

definition checkShortcutConflicts ::
  "ServiceSite list \<Rightarrow> string \<Rightarrow> ShortcutKey \<Rightarrow> ShortcutConflict list \<times> ServiceSite list \<times> ShortcutKey" where
  "checkShortcutConflicts ss excludeSiteId sh =
     (let (shortcutStr, sh') = formatShortcutString sh;
          (conflicts, ss') = conflicts_loop excludeSiteId shortcutStr ss
      in (conflicts, ss', sh'))"

definition store_shortcut ::
  "ServiceSite list \<Rightarrow> nat \<Rightarrow> ShortcutKey option \<Rightarrow> stored \<Rightarrow> (error + ServiceSite) \<times> stored" where
  "store_shortcut ss siteIndex sh st =
     (let updatedSite = (ss ! siteIndex)\<lparr>shortcuts := sh\<rparr>
      in case saveSites (ss[siteIndex := updatedSite]) st of
           (Inl e, st') \<Rightarrow> (Inl e, st')
         | (Inr _, st') \<Rightarrow> (Inr updatedSite, st'))"

definition updateSiteShortcut ::
  "string \<Rightarrow> ShortcutKey option \<Rightarrow> stored \<Rightarrow> (error + ServiceSite) \<times> stored" where
  "updateSiteShortcut i sh_opt st =
     (let ss = getSites st
      in case findIndex (\<lambda>site. site_id site = i) ss of
           None \<Rightarrow> (Inl SiteDoesNotExist, st)
         | Some siteIndex \<Rightarrow>
             (case sh_opt of
                None \<Rightarrow> store_shortcut ss siteIndex None st
              | Some sh \<Rightarrow>
                  if chord_enabled sh = Some True then
                    (let (conflicts, ss', sh') = checkShortcutConflicts ss i sh
                     in if length conflicts > 0
                        then (Inl (ShortcutConflictError (map siteName conflicts)), st)
                        else store_shortcut ss' siteIndex (Some sh') st)
                  else store_shortcut ss siteIndex (Some sh) st))"

fun usedShortcuts :: "string \<Rightarrow> ServiceSite list \<Rightarrow> string list" where
  "usedShortcuts i [] = []"
| "usedShortcuts i (site # rest) =
     (if site_id site \<noteq> i \<and> shortcut_on site
      then fst (formatShortcutString (the (shortcuts site))) # usedShortcuts i rest
      else usedShortcuts i rest)"

fun suggest_loop :: "string list \<Rightarrow> string list \<Rightarrow> string list \<Rightarrow> ShortcutKey option" where
  "suggest_loop used baseModifiers [] = None"
| "suggest_loop used baseModifiers (k # ks) =
     (let (shortcutStr, sh') =
            formatShortcutString \<lparr>key = k, modifiers = baseModifiers, chord_enabled = Some True\<rparr>
      in if shortcutStr \<notin> set used
         then Some \<lparr>key = k, modifiers = modifiers sh', chord_enabled = Some True\<rparr>
         else suggest_loop used (modifiers sh') ks)"

definition getSuggestedShortcut :: "string \<Rightarrow> stored \<Rightarrow> ShortcutKey option" where
  "getSuggestedShortcut i st =
     suggest_loop (usedShortcuts i (getSites st)) [''ctrl'', ''shift''] (keys_of ''1234567890'')"


section \<open>Persistence (StorageManager) on untyped values\<close>

text \<open>
  What \<open>browser.storage.sync\<close> holds and what \<open>JSON.parse\<close> returns is a JSON value, of
  any shape. An object is the map from its own property names to their values (the order
  of the properties plays no part here), and \<open>undefined\<close> is \<open>None\<close>, so that a property
  whose value is \<open>undefined\<close> is the same as a missing one: every read gives the same for
  both, and neither is written to the store or to a JSON text. The load path tests a
  number only for being zero; numbers are integers here.
\<close>

datatype json =
    JNull
  | JBool bool
  | JNum int
  | JStr string
  | JArr "json list"
  | JObj "string \<Rightarrow> json option"

fun js_truthy :: "json option \<Rightarrow> bool" where
  "js_truthy None = False"
| "js_truthy (Some JNull) = False"
| "js_truthy (Some (JBool b)) = b"
| "js_truthy (Some (JNum n)) = (n \<noteq> 0)"
| "js_truthy (Some (JStr s)) = (s \<noteq> [])"
| "js_truthy (Some (JArr xs)) = True"
| "js_truthy (Some (JObj m)) = True"

text \<open>\<open>typeof v === 'object'\<close>, which holds of \<open>null\<close> and of arrays too, and \<open>Array.isArray\<close>.\<close>

fun typeof_object :: "json option \<Rightarrow> bool" where
  "typeof_object (Some JNull) = True"
| "typeof_object (Some (JArr xs)) = True"
| "typeof_object (Some (JObj m)) = True"
| "typeof_object _ = False"

fun isArray :: "json option \<Rightarrow> bool" where
  "isArray (Some (JArr xs)) = True"
| "isArray _ = False"

text \<open>
  The own enumerable properties of a value, which an object spread \<open>{...v}\<close> copies: those
  of an object, the elements of an array and the characters of a string under their
  indices, and none for the other values.
\<close>

fun own :: "json option \<Rightarrow> string \<Rightarrow> json option" where
  "own (Some (JObj m)) = m"
| "own (Some (JArr xs)) = map_of (zip (map show_nat [0..<length xs]) xs)"
| "own (Some (JStr s)) = map_of (zip (map show_nat [0..<length s]) (map (\<lambda>c. JStr [c]) s))"
| "own _ = Map.empty"

text \<open>
  The read \<open>v.k\<close> of a value other than \<open>null\<close> and \<open>undefined\<close> (on these it throws),
  for the names that \<open>StorageManager\<close> reads: \<open>sites\<close>, \<open>settings\<close>, \<open>version\<close>,
  \<open>shortcuts\<close>, \<open>enabled\<close>. None of them is an index, \<open>length\<close> or a member of a
  prototype, so only an object can have them.
\<close>

fun get_prop :: "json option \<Rightarrow> string \<Rightarrow> json option" where
  "get_prop (Some (JObj m)) k = m k"
| "get_prop _ k = None"

fun map_throwing :: "('a \<Rightarrow> error + 'b) \<Rightarrow> 'a list \<Rightarrow> error + 'b list" where
  "map_throwing f [] = Inr []"
| "map_throwing f (x # xs) =
     (case f x of
        Inl e \<Rightarrow> Inl e
      | Inr y \<Rightarrow> (case map_throwing f xs of Inl e \<Rightarrow> Inl e | Inr ys \<Rightarrow> Inr (y # ys)))"

text \<open>
  The typed values as JSON values, field by field; a field that is \<open>None\<close> is missing.
  \<open>getDefaultConfig\<close> is \<open>JSON.parse(JSON.stringify(DEFAULT_CONFIG))\<close>.
\<close>

definition enc_shortcut :: "ShortcutKey \<Rightarrow> json" where
  "enc_shortcut sh =
     JObj ([''key'' \<mapsto> JStr (key sh), ''modifiers'' \<mapsto> JArr (map JStr (modifiers sh))]
           (''enabled'' := map_option JBool (chord_enabled sh)))"

definition enc_site :: "ServiceSite \<Rightarrow> json" where
  "enc_site s =
     JObj ([''id'' \<mapsto> JStr (site_id s), ''name'' \<mapsto> JStr (name s),
            ''description'' \<mapsto> JStr (description s), ''category'' \<mapsto> JStr (category s),
            ''urlTemplate'' \<mapsto> JStr (urlTemplate s), ''icon'' \<mapsto> JStr (icon s),
            ''enabled'' \<mapsto> JBool (enabled s), ''order'' \<mapsto> JNum (site_order s),
            ''isBuiltIn'' \<mapsto> JBool (isBuiltIn s)]
           (''shortcuts'' := map_option enc_shortcut (shortcuts s)))"

definition enc_settings :: "ExtensionSettings \<Rightarrow> json" where
  "enc_settings se =
     JObj (Map.empty
           (''defaultSiteId'' := map_option JStr (defaultSiteId se),
            ''openInNewTab'' := map_option JBool (openInNewTab se),
            ''showOnHover'' := map_option JBool (showOnHover se),
            ''enableShortcuts'' := map_option JBool (enableShortcuts se)))"

definition enc_config :: "ExtensionConfig \<Rightarrow> json" where
  "enc_config c =
     JObj ([''sites'' \<mapsto> JArr (map enc_site (sites c)), ''settings'' \<mapsto> enc_settings (settings c)]
           (''version'' := map_option JStr (version c)))"

definition enc_stored :: "stored \<Rightarrow> json option" where
  "enc_stored st =
     (case st of
        Absent \<Rightarrow> None
      | NotObject \<Rightarrow> Some (JBool True)
      | Object d \<Rightarrow>
          Some (JObj (Map.empty
                      (''sites'' := map_option (\<lambda>ss. JArr (map enc_site ss)) (doc_sites d),
                       ''settings'' := map_option enc_settings (doc_settings d),
                       ''version'' := map_option JStr (doc_version d)))))"

definition getDefaultConfig_json :: json where
  "getDefaultConfig_json = enc_config DEFAULT_CONFIG"

definition isValidConfig_json :: "json option \<Rightarrow> bool" where
  "isValidConfig_json config =
     (js_truthy config \<and> typeof_object config \<and> isArray (get_prop config ''sites'') \<and>
      js_truthy (get_prop config ''settings'') \<and> typeof_object (get_prop config ''settings''))"

text \<open>
  The function that \<open>migrateConfig\<close> maps over \<open>config.sites\<close>. The spread of \<open>site\<close> is
  harmless on every value; the read \<open>site.shortcuts\<close> throws a \<open>TypeError\<close> when \<open>site\<close>
  is \<open>null\<close>.
\<close>

definition migrate_site :: "json \<Rightarrow> error + json" where
  "migrate_site site =
     (if site = JNull then Inl TypeError
      else let sc = get_prop (Some site) ''shortcuts''
           in Inr (JObj ((own (Some site))
                 (''shortcuts'' :=
                    (if js_truthy sc
                     then Some (JObj ((own sc)
                            (''enabled'' \<mapsto>
                               (case get_prop sc ''enabled'' of Some e \<Rightarrow> e | None \<Rightarrow> JBool True))))
                     else sc)))))"

definition migrateConfig_json :: "json \<Rightarrow> error + json" where
  "migrateConfig_json config =
     (if get_prop (Some config) ''version'' \<noteq> get_prop (Some getDefaultConfig_json) ''version'' then
        (case get_prop (Some config) ''sites'' of
           Some (JArr es) \<Rightarrow>
             (case map_throwing migrate_site es of
                Inl e \<Rightarrow> Inl e
              | Inr migratedSites \<Rightarrow>
                  Inr (JObj ((own (Some config))
                        (''sites'' \<mapsto> JArr migratedSites,
                         ''version'' := get_prop (Some getDefaultConfig_json) ''version''))))
         | _ \<Rightarrow> Inl TypeError)
      else Inr config)"

text \<open>
  \<open>getConfig\<close> on the outcome of \<open>browser.storage.sync.get\<close>. A rejected read and an
  exception of the migration are caught by the \<open>try\<close> around them, and control reaches
  the default configuration.
\<close>

datatype sync_get = GetRejected | GetResolved "json option"

definition getConfig_json :: "sync_get \<Rightarrow> json" where
  "getConfig_json r =
     (case r of
        GetRejected \<Rightarrow> getDefaultConfig_json
      | GetResolved config \<Rightarrow>
          (case config of
             Some c \<Rightarrow>
               if js_truthy config \<and> isValidConfig_json config then
                 (case migrateConfig_json c of
                    Inl e \<Rightarrow> getDefaultConfig_json
                  | Inr migrated \<Rightarrow> migrated)
               else getDefaultConfig_json
           | None \<Rightarrow> getDefaultConfig_json))"

definition saveConfig_json :: "json \<Rightarrow> json option \<Rightarrow> (error + unit) \<times> json option" where
  "saveConfig_json config st =
     (if \<not> isValidConfig_json (Some config) then (Inl InvalidConfigFormat, st)
      else (Inr (),
            Some (JObj ((own (Some config))
                    (''version'' := get_prop (Some getDefaultConfig_json) ''version'')))))"

text \<open>
  A JSON text is identified with the JSON value it encodes: \<open>JSON.parse\<close> throws on a text
  that is no JSON, and \<open>JSON.parse\<close> of what \<open>JSON.stringify\<close> wrote is the value written.
  Both functions are the platform's. In \<open>exportConfig\<close> the argument \<open>now\<close> is
  \<open>new Date().toISOString()\<close>.
\<close>

datatype json_text = NotJson | Json json

fun JSON_parse :: "json_text \<Rightarrow> error + json" where
  "JSON_parse NotJson = Inl JsonSyntaxError"
| "JSON_parse (Json v) = Inr v"

definition JSON_stringify :: "json \<Rightarrow> json_text" where
  "JSON_stringify v = Json v"

definition exportConfig :: "string \<Rightarrow> json option \<Rightarrow> json_text" where
  "exportConfig now st =
     (let config = getConfig_json (GetResolved st);
          exportData = JObj ((own (Some config))(''exportDate'' \<mapsto> JStr now))
      in JSON_stringify exportData)"

definition mergeWithDefault :: "json \<Rightarrow> json" where
  "mergeWithDefault config =
     (let defaultConfig = getDefaultConfig_json
      in JObj (Map.empty
               (''version'' := get_prop (Some getDefaultConfig_json) ''version'',
                ''sites'' := (if js_truthy (get_prop (Some config) ''sites'')
                              then get_prop (Some config) ''sites''
                              else get_prop (Some defaultConfig) ''sites''),
                ''settings'' \<mapsto> JObj (own (get_prop (Some defaultConfig) ''settings'') ++
                                          own (get_prop (Some config) ''settings'')))))"

definition importConfig :: "json_text \<Rightarrow> json option \<Rightarrow> (error + json) \<times> json option" where
  "importConfig configJson st =
     (case JSON_parse configJson of
        Inl e \<Rightarrow> (Inl e, st)
      | Inr importedConfig \<Rightarrow>
          if \<not> isValidConfig_json (Some importedConfig) then (Inl InvalidImportFormat, st)
          else (let mergedConfig = mergeWithDefault importedConfig
                in case saveConfig_json mergedConfig st of
                     (Inl e, st') \<Rightarrow> (Inl e, st')
                   | (Inr _, st') \<Rightarrow> (Inr mergedConfig, st')))"

section \<open>Auxiliary notions for the statements\<close>




definition one_setting_doc :: json where
  "one_setting_doc =
     JObj [''sites'' \<mapsto> JArr [], ''settings'' \<mapsto> JObj [''openInNewTab'' \<mapsto> JBool False],
           ''version'' \<mapsto> JStr ''1.0.0'']"

definition dated_doc :: json where
  "dated_doc =
     JObj [''sites'' \<mapsto> JArr [], ''settings'' \<mapsto> enc_settings DEFAULT_SETTINGS,
           ''version'' \<mapsto> JStr ''1.0.0'', ''exportDate'' \<mapsto> JStr ''2024-05-01T10:00:00.000Z'']"

text \<open>The canonical string of the shortcut of a site, when the site has one that is enabled.\<close>

definition active_chord :: "ServiceSite \<Rightarrow> string option" where
  "active_chord site =
     (case shortcuts site of
        None \<Rightarrow> None
      | Some sh \<Rightarrow> if chord_enabled sh = Some True then Some (fst (formatShortcutString sh)) else None)"

text \<open>
  The chord ctrl+shift+\<open>k\<close> is taken, for a site \<open>i\<close>, when a site with another id has it
  as its enabled shortcut.
\<close>

definition chord_taken :: "string \<Rightarrow> stored \<Rightarrow> string \<Rightarrow> bool" where
  "chord_taken i st k =
     (\<exists>s\<in>set (getSites st). site_id s \<noteq> i \<and> active_chord s = Some (''ctrl+shift+'' @ k))"

text \<open>Three custom sites \<open>a\<close>, \<open>b\<close>, \<open>c\<close> without shortcuts, and a store that holds them in this order.\<close>

definition plain_site :: "string \<Rightarrow> int \<Rightarrow> ServiceSite" where
  "plain_site i n =
     \<lparr>site_id = i, name = i, description = ''d'', category = ''source'',
      urlTemplate = ''https://x.io/{REPO_PATH}'', icon = ''code'', enabled = True, site_order = n,
      isBuiltIn = False, shortcuts = None\<rparr>"

definition abc_store :: stored where
  "abc_store =
     as_stored \<lparr>sites = [plain_site ''a'' 1, plain_site ''b'' 2, plain_site ''c'' 3],
                settings = DEFAULT_SETTINGS, version = Some ''1.0.0''\<rparr>"

text \<open>
  An input for \<open>addSite\<close> with a template written the way the interface documents it and
  the built-in sites write theirs; and a store of two custom sites, the first with an
  enabled shortcut whose modifiers are stored as shift, ctrl.
\<close>

definition documented_input :: CreateSiteInput where
  "documented_input =
     \<lparr>site_id = [], name = ''Example'', description = ''d'', category = ''source'',
      urlTemplate = ''https://example.com/{REPO_PATH}'', icon = ''globe'', enabled = True,
      site_order = 0, isBuiltIn = False, shortcuts = None\<rparr>"

definition shift_ctrl_store :: stored where
  "shift_ctrl_store =
     as_stored
       \<lparr>sites = [(plain_site ''a'' 1)\<lparr>shortcuts :=
                    Some \<lparr>key = ''7'', modifiers = [''shift'', ''ctrl''], chord_enabled = Some True\<rparr>\<rparr>,
                 plain_site ''b'' 2],
        settings = DEFAULT_SETTINGS, version = Some ''1.0.0''\<rparr>"

text \<open>The default configuration after the site github1s has been disabled.\<close>

definition github1s_off_store :: stored where
  "github1s_off_store = snd (toggleSite ''github1s'' False Absent)"

text \<open>
  A site is the only one with its id when the sites of the list that have its id are this
  site, once. The store below holds a custom site and a built-in site with the same id.
\<close>

definition only_site_with_id :: "ServiceSite \<Rightarrow> ServiceSite list \<Rightarrow> bool" where
  "only_site_with_id s ss = (filter (\<lambda>t. site_id t = site_id s) ss = [s])"

definition shared_id_store :: stored where
  "shared_id_store =
     as_stored
       \<lparr>sites = [plain_site ''a'' 1, plain_site ''b'' 2, (plain_site ''a'' 3)\<lparr>isBuiltIn := True\<rparr>],
        settings = DEFAULT_SETTINGS, version = Some ''1.0.0''\<rparr>"


section \<open>Shortcut strings: formatting and parsing\<close>

lemma js_split_plain: "c \<notin> set x \<Longrightarrow> js_split c x = [x]"
  by (induction x) auto

lemma js_split_append: "c \<notin> set x \<Longrightarrow> js_split c (x @ c # r) = x # js_split c r"
  by (induction x) auto

lemma js_split_join:
  "xs \<noteq> [] \<Longrightarrow> \<forall>x\<in>set xs. c \<notin> set x \<Longrightarrow> js_split c (js_join [c] xs) = xs"
proof (induction "[c]" xs rule: js_join.induct)
  case 1
  then show ?case by simp
next
  case (2 x)
  then show ?case by (simp add: js_split_plain)
next
  case (3 x y ys)
  then show ?case by (simp add: js_split_append)
qed

lemma modifier_no_plus: "m \<in> set MODIFIER_KEYS \<Longrightarrow> CHR ''+'' \<notin> set m"
  by (auto simp: MODIFIER_KEYS_def)

lemma key_no_plus: "k \<in> set SHORTCUT_KEYS \<Longrightarrow> CHR ''+'' \<notin> set k"
  by (auto simp: SHORTCUT_KEYS_def keys_of_def)

text \<open>
  Claim C3. For every chord \<open>C\<close> that \<open>validateShortcut\<close> accepts (at least one modifier,
  all modifiers among ctrl, alt, shift, meta, the key in the allowed key set), parsing the
  formatted string succeeds and gives the key of \<open>C\<close> and the modifiers of \<open>C\<close> sorted,
  which are the same set of modifiers. For every chord, valid or not, the formatted string
  is the modifiers in lexicographic order, then the key, joined by \<open>+\<close>.
\<close>

theorem format_parse_inverse:
  "(validateShortcut C \<longrightarrow>
      parseShortcutString (fst (formatShortcutString C)) =
        Some \<lparr>key = key C, modifiers = sort (modifiers C), chord_enabled = Some True\<rparr> \<and>
      set (sort (modifiers C)) = set (modifiers C)) \<and>
   (\<exists>ms. sorted ms \<and> mset ms = mset (modifiers C) \<and>
         fst (formatShortcutString C) = js_join ''+'' (ms @ [key C]))"
proof (intro conjI impI)
  assume v: "validateShortcut C"
  let ?parts = "sort (modifiers C) @ [key C]"
  from v have m: "modifiers C \<noteq> []" and a: "\<forall>m\<in>set (modifiers C). m \<in> set MODIFIER_KEYS"
    and k: "key C \<in> set SHORTCUT_KEYS"
    by (auto simp: validateShortcut_def list_all_iff split: if_splits)
  have "\<forall>x\<in>set ?parts. CHR ''+'' \<notin> set x"
    using a k modifier_no_plus key_no_plus by auto
  then have "js_split (CHR ''+'') (js_join ''+'' ?parts) = ?parts"
    using js_split_join [of ?parts "CHR ''+''"] by simp
  then show "parseShortcutString (fst (formatShortcutString C)) =
        Some \<lparr>key = key C, modifiers = sort (modifiers C), chord_enabled = Some True\<rparr>"
    using m by (auto simp: parseShortcutString_def formatShortcutString_def Let_def)
  show "set (sort (modifiers C)) = set (modifiers C)" by simp
next
  show "\<exists>ms. sorted ms \<and> mset ms = mset (modifiers C) \<and>
         fst (formatShortcutString C) = js_join ''+'' (ms @ [key C])"
    by (rule exI [of _ "sort (modifiers C)"]) (simp add: formatShortcutString_def Let_def)
qed

theorem format_parse_inverse_witness:
  "validateShortcut \<lparr>key = ''1'', modifiers = [''shift'', ''ctrl''], chord_enabled = Some False\<rparr> \<and>
   parseShortcutString (fst (formatShortcutString
       \<lparr>key = ''1'', modifiers = [''shift'', ''ctrl''], chord_enabled = Some False\<rparr>)) =
     Some \<lparr>key = ''1'', modifiers = [''ctrl'', ''shift''], chord_enabled = Some True\<rparr> \<and>
   fst (formatShortcutString
       \<lparr>key = ''1'', modifiers = [''shift'', ''ctrl''], chord_enabled = Some False\<rparr>) = ''ctrl+shift+1''"
proof -
  let ?C = "\<lparr>key = ''1'', modifiers = [''shift'', ''ctrl''], chord_enabled = Some False\<rparr>"
  have v: "validateShortcut ?C"
    by (simp add: validateShortcut_def MODIFIER_KEYS_def SHORTCUT_KEYS_def keys_of_def)
  have s: "sort [''shift'', ''ctrl''] = [''ctrl'', ''shift'']" by code_simp
  show ?thesis
    using v format_parse_inverse [of ?C] s by (simp add: formatShortcutString_def)
qed
section \<open>Persistence: the typed view\<close>

lemma version_DEFAULT: "version DEFAULT_CONFIG = Some ''1.0.0''"
  by (simp add: DEFAULT_CONFIG_def)

lemma migrateConfig_version: "version (migrateConfig c) = Some ''1.0.0''"
  by (simp add: migrateConfig_def version_DEFAULT Let_def)

lemma getConfig_version: "version (getConfig st) = Some ''1.0.0''"
  by (simp add: getConfig_def getDefaultConfig_def version_DEFAULT migrateConfig_version
      split: stored.splits)

lemma getConfig_as_stored:
  "version c = Some ''1.0.0'' \<Longrightarrow> getConfig (as_stored c) = c"
  by (simp add: getConfig_def as_stored_def as_config_def migrateConfig_def version_DEFAULT)

lemma saveConfig_ok:
  "saveConfig c st = (Inr (), as_stored (c\<lparr>version := Some ''1.0.0''\<rparr>))"
  by (simp add: saveConfig_def as_stored_def version_DEFAULT)

lemma saveSites_ok:
  "saveSites ss st = (Inr (), as_stored ((getConfig st)\<lparr>sites := ss\<rparr>))"
proof -
  have "(getConfig st)\<lparr>sites := ss, version := Some ''1.0.0''\<rparr> = (getConfig st)\<lparr>sites := ss\<rparr>"
    using getConfig_version [of st] by simp
  then show ?thesis by (simp add: saveSites_def saveConfig_ok)
qed

lemma getConfig_after_saveSites:
  "getConfig (as_stored ((getConfig st)\<lparr>sites := ss\<rparr>)) = (getConfig st)\<lparr>sites := ss\<rparr>"
  by (rule getConfig_as_stored) (simp add: getConfig_version)

lemma getSites_after_saveSites:
  "getSites (as_stored ((getConfig st)\<lparr>sites := ss\<rparr>)) = ss"
  by (simp add: getSites_def getConfig_after_saveSites)

section \<open>Persistence on untyped values: loading\<close>

lemma isArray_iff: "isArray v \<longleftrightarrow> (\<exists>xs. v = Some (JArr xs))"
  by (cases v rule: isArray.cases) auto

lemma valid_is_object:
  assumes "isValidConfig_json (Some c)"
  shows "\<exists>m es s. c = JObj m \<and> m ''sites'' = Some (JArr es) \<and> m ''settings'' = Some s \<and>
                  js_truthy (Some s) \<and> typeof_object (Some s)"
proof (cases c)
  case (JObj m)
  from assms JObj have a: "isArray (m ''sites'')" and t: "js_truthy (m ''settings'')"
    and o: "typeof_object (m ''settings'')"
    by (simp_all add: isValidConfig_json_def)
  from a obtain es where "m ''sites'' = Some (JArr es)" by (auto simp: isArray_iff)
  moreover from t obtain s where "m ''settings'' = Some s" by (cases "m ''settings''") auto
  ultimately show ?thesis using JObj t o by auto
qed (use assms in \<open>simp_all add: isValidConfig_json_def\<close>)

lemma default_version:
  "get_prop (Some getDefaultConfig_json) ''version'' = Some (JStr ''1.0.0'')"
  by (simp add: getDefaultConfig_json_def enc_config_def DEFAULT_CONFIG_def)

lemma default_valid: "isValidConfig_json (Some getDefaultConfig_json)"
  by (simp add: getDefaultConfig_json_def enc_config_def isValidConfig_json_def enc_settings_def)





section \<open>The typed view is the untyped one on documents of site objects\<close>

lemma enc_shortcut_migrated:
  "JObj ((own (Some (enc_shortcut sh)))
      (''enabled'' \<mapsto>
         (case get_prop (Some (enc_shortcut sh)) ''enabled'' of Some e \<Rightarrow> e | None \<Rightarrow> JBool True))) =
   enc_shortcut (migrateShortcut sh)"
  by (cases "chord_enabled sh") (auto simp: enc_shortcut_def migrateShortcut_def fun_eq_iff)

lemma migrate_site_typed:
  "migrate_site (enc_site s) =
     Inr (enc_site (s\<lparr>shortcuts := (case shortcuts s of Some sh \<Rightarrow> Some (migrateShortcut sh)
                                     | None \<Rightarrow> shortcuts s)\<rparr>))"
proof (cases "shortcuts s")
  case None
  then show ?thesis
    by (simp add: migrate_site_def enc_site_def Let_def)
next
  case (Some sh)
  have "get_prop (Some (enc_site s)) ''shortcuts'' = Some (enc_shortcut sh)"
    using Some by (simp add: enc_site_def)
  moreover have "js_truthy (Some (enc_shortcut sh))" by (simp add: enc_shortcut_def)
  moreover have "enc_site s \<noteq> JNull" by (simp add: enc_site_def)
  ultimately have "migrate_site (enc_site s) =
      Inr (JObj ((own (Some (enc_site s)))(''shortcuts'' \<mapsto> enc_shortcut (migrateShortcut sh))))"
    by (simp add: migrate_site_def Let_def enc_shortcut_migrated)
  also have "JObj ((own (Some (enc_site s)))(''shortcuts'' \<mapsto> enc_shortcut (migrateShortcut sh))) =
      enc_site (s\<lparr>shortcuts := Some (migrateShortcut sh)\<rparr>)"
    by (simp add: enc_site_def)
  finally show ?thesis using Some by simp
qed

lemma map_throwing_typed:
  "map_throwing migrate_site (map enc_site ss) =
     Inr (map enc_site
            (map (\<lambda>site. site\<lparr>shortcuts :=
                     (case shortcuts site of Some sh \<Rightarrow> Some (migrateShortcut sh)
                      | None \<Rightarrow> shortcuts site)\<rparr>) ss))"
  by (induction ss) (simp_all add: migrate_site_typed)

lemma enc_as_stored: "enc_stored (as_stored c) = Some (enc_config c)"
  by (simp add: enc_stored_def as_stored_def enc_config_def)

lemma getConfig_typed:
  "getConfig_json (GetResolved (enc_stored st)) = enc_config (getConfig st)"
proof (cases st)
  case Absent
  then show ?thesis
    by (simp add: getConfig_json_def enc_stored_def getConfig_def getDefaultConfig_json_def
        getDefaultConfig_def)
next
  case NotObject
  then show ?thesis
    by (simp add: getConfig_json_def enc_stored_def getConfig_def getDefaultConfig_json_def
        getDefaultConfig_def isValidConfig_json_def)
next
  case (Object d)
  show ?thesis
  proof (cases "isValidConfig st")
    case False
    with Object have "\<not> isValidConfig_json (enc_stored st)"
      by (auto simp: enc_stored_def isValidConfig_json_def)
    with False Object show ?thesis
      by (auto simp: getConfig_json_def getConfig_def getDefaultConfig_json_def getDefaultConfig_def
          enc_stored_def)
  next
    case True
    with Object obtain ss se where d: "doc_sites d = Some ss" "doc_settings d = Some se"
      by auto
    let ?c = "JObj (Map.empty(''sites'' \<mapsto> JArr (map enc_site ss), ''settings'' \<mapsto> enc_settings se,
                  ''version'' := map_option JStr (doc_version d)))"
    have e: "enc_stored st = Some ?c"
      using Object d by (simp add: enc_stored_def)
    have v: "isValidConfig_json (Some ?c)"
      by (simp add: isValidConfig_json_def enc_settings_def)
    show ?thesis
    proof (cases "doc_version d = Some ''1.0.0''")
      case True
      have "getConfig_json (GetResolved (Some ?c)) = ?c"
        using v True by (simp add: getConfig_json_def migrateConfig_json_def default_version)
      moreover have "getConfig st = \<lparr>sites = ss, settings = se, version = Some ''1.0.0''\<rparr>"
        using Object d True
        by (simp add: getConfig_def as_config_def migrateConfig_def version_DEFAULT)
      moreover have "?c = enc_config \<lparr>sites = ss, settings = se, version = Some ''1.0.0''\<rparr>"
        using True by (simp add: enc_config_def)
      ultimately show ?thesis unfolding e by simp
    next
      case False
      then have nv: "map_option JStr (doc_version d) \<noteq> Some (JStr ''1.0.0'')"
        by (cases "doc_version d") auto
      let ?ms = "map (\<lambda>site. site\<lparr>shortcuts :=
                     (case shortcuts site of Some sh \<Rightarrow> Some (migrateShortcut sh)
                      | None \<Rightarrow> shortcuts site)\<rparr>) ss"
      have "getConfig_json (GetResolved (Some ?c)) =
              JObj ((own (Some ?c))(''sites'' \<mapsto> JArr (map enc_site ?ms), ''version'' \<mapsto> JStr ''1.0.0''))"
        using v nv
        by (simp add: getConfig_json_def migrateConfig_json_def default_version map_throwing_typed)
      also have "\<dots> = enc_config \<lparr>sites = ?ms, settings = se, version = Some ''1.0.0''\<rparr>"
        by (auto simp: enc_config_def fun_eq_iff)
      also have "\<lparr>sites = ?ms, settings = se, version = Some ''1.0.0''\<rparr> = getConfig st"
        using Object d False
        by (simp add: getConfig_def as_config_def migrateConfig_def version_DEFAULT Let_def)
      finally show ?thesis unfolding e .
    qed
  qed
qed

lemma saveConfig_typed:
  "saveConfig_json (enc_config c) (enc_stored st) = (Inr (), enc_stored (snd (saveConfig c st))) \<and>
   fst (saveConfig c st) = Inr ()"
proof -
  have "isValidConfig_json (Some (enc_config c))"
    by (simp add: isValidConfig_json_def enc_config_def enc_settings_def)
  moreover have "JObj ((own (Some (enc_config c)))(''version'' \<mapsto> JStr ''1.0.0'')) =
                 enc_config (c\<lparr>version := Some ''1.0.0''\<rparr>)"
    by (auto simp: enc_config_def fun_eq_iff)
  ultimately show ?thesis
    by (simp add: saveConfig_json_def default_version saveConfig_ok enc_as_stored)
qed

section \<open>Persistence on untyped values: what loading returns\<close>




section \<open>Persistence on untyped values: export and import\<close>

lemma loaded_shape:
  "\<exists>m es s. getConfig_json r = JObj m \<and> m ''sites'' = Some (JArr es) \<and> m ''settings'' = Some s \<and>
            js_truthy (Some s) \<and> typeof_object (Some s) \<and> m ''version'' = Some (JStr ''1.0.0'')"
proof -
  have d: "\<exists>m es s. getDefaultConfig_json = JObj m \<and> m ''sites'' = Some (JArr es) \<and>
             m ''settings'' = Some s \<and> js_truthy (Some s) \<and> typeof_object (Some s) \<and>
             m ''version'' = Some (JStr ''1.0.0'')"
    by (simp add: getDefaultConfig_json_def enc_config_def enc_settings_def DEFAULT_CONFIG_def)
  show ?thesis
  proof (cases r)
    case GetRejected
    with d show ?thesis by (simp add: getConfig_json_def)
  next
    case (GetResolved v)
    show ?thesis
    proof (cases "isValidConfig_json v")
      case False
      with GetResolved d show ?thesis
        by (auto simp: getConfig_json_def split: option.splits)
    next
      case True
      then obtain c where c: "v = Some c"
        by (cases v) (auto simp: isValidConfig_json_def)
      from valid_is_object [OF True [unfolded c]] obtain m es s
        where m: "c = JObj m" "m ''sites'' = Some (JArr es)" "m ''settings'' = Some s"
          "js_truthy (Some s)" "typeof_object (Some s)"
        by blast
      from True c have t: "js_truthy (Some c)" by (simp add: isValidConfig_json_def)
      show ?thesis
      proof (cases "migrateConfig_json c")
        case (Inl e)
        with GetResolved c True t d show ?thesis by (simp add: getConfig_json_def)
      next
        case (Inr c')
        have "\<exists>m'. c' = JObj m' \<and> (\<exists>es'. m' ''sites'' = Some (JArr es')) \<and> m' ''settings'' = Some s \<and>
                m' ''version'' = Some (JStr ''1.0.0'')"
          using Inr m
          by (auto simp: migrateConfig_json_def default_version split: if_splits sum.splits)
        moreover have "getConfig_json r = c'"
          using GetResolved c True t Inr by (simp add: getConfig_json_def)
        ultimately show ?thesis using m(4,5) by auto
      qed
    qed
  qed
qed

lemma default_settings:
  "get_prop (Some getDefaultConfig_json) ''settings'' = Some (enc_settings DEFAULT_SETTINGS)"
  by (simp add: getDefaultConfig_json_def enc_config_def DEFAULT_CONFIG_def)

lemma default_settings_keys:
  "get_prop (Some (enc_settings DEFAULT_SETTINGS)) k \<noteq> None \<longleftrightarrow>
     k \<in> {''defaultSiteId'', ''openInNewTab'', ''showOnHover'', ''enableShortcuts''}"
  by (auto simp: enc_settings_def DEFAULT_SETTINGS_def)

lemma import_valid:
  assumes "isValidConfig_json (Some c)"
  shows "importConfig (Json c) st =
           (Inr (mergeWithDefault c), Some (mergeWithDefault c)) \<and>
         mergeWithDefault c =
           JObj [''version'' \<mapsto> JStr ''1.0.0'', ''sites'' \<mapsto> the (get_prop (Some c) ''sites''),
                 ''settings'' \<mapsto> JObj (own (Some (enc_settings DEFAULT_SETTINGS)) ++
                                          own (get_prop (Some c) ''settings''))]"
proof -
  from valid_is_object [OF assms] obtain m es s
    where m: "c = JObj m" "m ''sites'' = Some (JArr es)" "m ''settings'' = Some s"
    by blast
  have mg: "mergeWithDefault c =
           JObj [''version'' \<mapsto> JStr ''1.0.0'', ''sites'' \<mapsto> the (get_prop (Some c) ''sites''),
                 ''settings'' \<mapsto> JObj (own (Some (enc_settings DEFAULT_SETTINGS)) ++
                                          own (get_prop (Some c) ''settings''))]"
    using m by (simp add: mergeWithDefault_def Let_def default_version default_settings)
  have v: "isValidConfig_json (Some (mergeWithDefault c))"
    unfolding mg using m by (simp add: isValidConfig_json_def)
  have "JObj ((own (Some (mergeWithDefault c)))(''version'' \<mapsto> JStr ''1.0.0'')) = mergeWithDefault c"
    by (auto simp: mg fun_eq_iff)
  with v have "saveConfig_json (mergeWithDefault c) st = (Inr (), Some (mergeWithDefault c))"
    by (simp add: saveConfig_json_def default_version)
  with assms mg show ?thesis
    by (simp add: importConfig_def Let_def)
qed

text \<open>
  Claim C8, as the code has it. The import of a valid document returns and stores an
  object of three properties: the current version, the \<open>sites\<close> of the document, and
  settings that have, for each name, the value of the document's settings if they have
  one and the default value otherwise; every other property of the document, such as
  \<open>exportDate\<close>, is dropped. When the configuration that \<open>getConfig\<close> loads has no
  property besides \<open>sites\<close>, \<open>settings\<close> and \<open>version\<close> and its settings have the four
  fields, importing the text that \<open>exportConfig\<close> produced from it succeeds, returns that
  configuration and stores it, and the next \<open>getConfig\<close> loads it again.
\<close>

theorem export_import_roundtrip:
  "(isValidConfig_json (Some c) \<longrightarrow>
      (\<exists>m s. importConfig (Json c) st = (Inr (JObj m), Some (JObj m)) \<and>
             m ''version'' = Some (JStr ''1.0.0'') \<and>
             m ''sites'' = get_prop (Some c) ''sites'' \<and>
             m ''settings'' = Some (JObj s) \<and>
             (\<forall>k. s k = (case own (get_prop (Some c) ''settings'') k of
                           Some x \<Rightarrow> Some x
                         | None \<Rightarrow> get_prop (Some (enc_settings DEFAULT_SETTINGS)) k)) \<and>
             (\<forall>k. k \<notin> {''version'', ''sites'', ''settings''} \<longrightarrow> m k = None))) \<and>
   ((\<forall>k. own (Some (getConfig_json (GetResolved st))) k \<noteq> None \<longrightarrow>
          k \<in> {''sites'', ''settings'', ''version''}) \<and>
    (\<forall>k\<in>{''defaultSiteId'', ''openInNewTab'', ''showOnHover'', ''enableShortcuts''}.
        get_prop (get_prop (Some (getConfig_json (GetResolved st))) ''settings'') k \<noteq> None) \<longrightarrow>
      importConfig (exportConfig now st) st =
        (Inr (getConfig_json (GetResolved st)), Some (getConfig_json (GetResolved st))) \<and>
      getConfig_json (GetResolved (Some (getConfig_json (GetResolved st)))) =
        getConfig_json (GetResolved st))"
proof (intro conjI impI)
  assume v: "isValidConfig_json (Some c)"
  from valid_is_object [OF v] obtain mc es sv
    where mc: "c = JObj mc" "mc ''sites'' = Some (JArr es)" "mc ''settings'' = Some sv"
    by blast
  let ?s = "own (Some (enc_settings DEFAULT_SETTINGS)) ++ own (get_prop (Some c) ''settings'')"
  let ?m = "[''version'' \<mapsto> JStr ''1.0.0'', ''sites'' \<mapsto> the (get_prop (Some c) ''sites''),
             ''settings'' \<mapsto> JObj ?s]"
  from import_valid [OF v, of st]
  have i: "importConfig (Json c) st = (Inr (JObj ?m), Some (JObj ?m))" by simp
  have 1: "?m ''version'' = Some (JStr ''1.0.0'')" by simp
  have 2: "?m ''sites'' = get_prop (Some c) ''sites''" using mc by simp
  have 3: "?m ''settings'' = Some (JObj ?s)" by simp
  have 4: "\<forall>k. ?s k = (case own (get_prop (Some c) ''settings'') k of
                           Some x \<Rightarrow> Some x
                         | None \<Rightarrow> get_prop (Some (enc_settings DEFAULT_SETTINGS)) k)"
    by (auto simp: map_add_def enc_settings_def split: option.splits)
  have 5: "\<forall>k. k \<notin> {''version'', ''sites'', ''settings''} \<longrightarrow> ?m k = None" by simp
  from i 1 2 3 4 5
  show "\<exists>m s. importConfig (Json c) st = (Inr (JObj m), Some (JObj m)) \<and>
             m ''version'' = Some (JStr ''1.0.0'') \<and>
             m ''sites'' = get_prop (Some c) ''sites'' \<and>
             m ''settings'' = Some (JObj s) \<and>
             (\<forall>k. s k = (case own (get_prop (Some c) ''settings'') k of
                           Some x \<Rightarrow> Some x
                         | None \<Rightarrow> get_prop (Some (enc_settings DEFAULT_SETTINGS)) k)) \<and>
             (\<forall>k. k \<notin> {''version'', ''sites'', ''settings''} \<longrightarrow> m k = None)"
    by blast
next
  let ?L = "getConfig_json (GetResolved st)"
  assume h: "(\<forall>k. own (Some ?L) k \<noteq> None \<longrightarrow> k \<in> {''sites'', ''settings'', ''version''}) \<and>
    (\<forall>k\<in>{''defaultSiteId'', ''openInNewTab'', ''showOnHover'', ''enableShortcuts''}.
        get_prop (get_prop (Some ?L) ''settings'') k \<noteq> None)"
  from loaded_shape [of "GetResolved st"] obtain m es s
    where m: "?L = JObj m" "m ''sites'' = Some (JArr es)" "m ''settings'' = Some s"
      "js_truthy (Some s)" "typeof_object (Some s)" "m ''version'' = Some (JStr ''1.0.0'')"
    by blast
  from h m have "get_prop (Some s) ''defaultSiteId'' \<noteq> None" by simp
  then obtain sm where sm: "s = JObj sm" by (cases s) auto
  from h m sm have four: "\<forall>k\<in>{''defaultSiteId'', ''openInNewTab'', ''showOnHover'', ''enableShortcuts''}.
      sm k \<noteq> None"
    by simp
  from h m have three: "\<forall>k. m k \<noteq> None \<longrightarrow> k \<in> {''sites'', ''settings'', ''version''}" by simp
  let ?x = "JObj (m(''exportDate'' \<mapsto> JStr now))"
  have e: "exportConfig now st = Json ?x"
    using m(1) by (simp add: exportConfig_def JSON_stringify_def Let_def)
  have vx: "isValidConfig_json (Some ?x)"
    using m sm by (simp add: isValidConfig_json_def)
  have s_eq: "own (Some (enc_settings DEFAULT_SETTINGS)) ++ sm = sm"
  proof
    fix k
    show "(own (Some (enc_settings DEFAULT_SETTINGS)) ++ sm) k = sm k"
    proof (cases "sm k")
      case None
      with four have "k \<notin> {''defaultSiteId'', ''openInNewTab'', ''showOnHover'', ''enableShortcuts''}"
        by auto
      with default_settings_keys [of k] have "own (Some (enc_settings DEFAULT_SETTINGS)) k = None"
        by (simp add: enc_settings_def)
      with None show ?thesis by (simp add: map_add_def)
    next
      case (Some x)
      then show ?thesis by (simp add: map_add_def)
    qed
  qed
  have "mergeWithDefault ?x = JObj m"
  proof -
    have "[''version'' \<mapsto> JStr ''1.0.0'', ''sites'' \<mapsto> JArr es, ''settings'' \<mapsto> JObj sm] = m"
    proof
      fix k
      show "[''version'' \<mapsto> JStr ''1.0.0'', ''sites'' \<mapsto> JArr es, ''settings'' \<mapsto> JObj sm] k = m k"
        using three m sm by (cases "m k") auto
    qed
    with import_valid [OF vx, of st] m sm s_eq show ?thesis by simp
  qed
  with import_valid [OF vx, of st] e m(1)
  show "importConfig (exportConfig now st) st = (Inr ?L, Some ?L)"
    by simp
  have "isValidConfig_json (Some ?L)"
    using m by (simp add: isValidConfig_json_def)
  with m show "getConfig_json (GetResolved (Some ?L)) = ?L"
    by (simp add: getConfig_json_def migrateConfig_json_def default_version)
qed

lemma getSites_abc_config:
  "getConfig abc_store =
     \<lparr>sites = [plain_site ''a'' 1, plain_site ''b'' 2, plain_site ''c'' 3],
      settings = DEFAULT_SETTINGS, version = Some ''1.0.0''\<rparr>"
  by (simp add: abc_store_def getConfig_as_stored)

theorem export_import_roundtrip_witness:
  "importConfig (exportConfig ''2024-05-01T10:00:00.000Z'' (enc_stored abc_store)) (enc_stored abc_store) =
     (Inr (enc_config (getConfig abc_store)), Some (enc_config (getConfig abc_store))) \<and>
   getConfig_json (GetResolved (Some (enc_config (getConfig abc_store)))) =
     enc_config (getConfig abc_store) \<and>
   sites (getConfig abc_store) = [plain_site ''a'' 1, plain_site ''b'' 2, plain_site ''c'' 3] \<and>
   isValidConfig_json (Some dated_doc) \<and>
   (\<exists>m. importConfig (Json dated_doc) None = (Inr (JObj m), Some (JObj m)) \<and>
        m ''exportDate'' = None \<and> m ''sites'' = Some (JArr []) \<and>
        m ''version'' = Some (JStr ''1.0.0''))"
proof -
  let ?st = "enc_stored abc_store"
  let ?L = "enc_config (getConfig abc_store)"
  have L: "getConfig_json (GetResolved ?st) = ?L" by (rule getConfig_typed)
  have h1: "\<forall>k. own (Some ?L) k \<noteq> None \<longrightarrow> k \<in> {''sites'', ''settings'', ''version''}"
    by (simp add: enc_config_def)
  have h2: "\<forall>k\<in>{''defaultSiteId'', ''openInNewTab'', ''showOnHover'', ''enableShortcuts''}.
        get_prop (get_prop (Some ?L) ''settings'') k \<noteq> None"
    by (simp add: enc_config_def getSites_abc_config enc_settings_def DEFAULT_SETTINGS_def)
  have v: "isValidConfig_json (Some dated_doc)"
    by (simp add: dated_doc_def isValidConfig_json_def enc_settings_def)
  have s: "get_prop (Some dated_doc) ''sites'' = Some (JArr [])"
    by (simp add: dated_doc_def)
  note T = export_import_roundtrip [of dated_doc None "''2024-05-01T10:00:00.000Z''"]
  note U = export_import_roundtrip [of dated_doc ?st "''2024-05-01T10:00:00.000Z''"]
  from U h1 h2 have 1: "importConfig (exportConfig ''2024-05-01T10:00:00.000Z'' ?st) ?st = (Inr ?L, Some ?L)"
    and 2: "getConfig_json (GetResolved (Some ?L)) = ?L"
    unfolding L by blast+
  from T v obtain m where m: "importConfig (Json dated_doc) None = (Inr (JObj m), Some (JObj m))"
    "m ''version'' = Some (JStr ''1.0.0'')" "m ''sites'' = get_prop (Some dated_doc) ''sites''"
    "\<forall>k. k \<notin> {''version'', ''sites'', ''settings''} \<longrightarrow> m k = None"
    by blast
  from m(4) have "m ''exportDate'' = None" by simp
  with m s have 3: "\<exists>m. importConfig (Json dated_doc) None = (Inr (JObj m), Some (JObj m)) \<and>
        m ''exportDate'' = None \<and> m ''sites'' = Some (JArr []) \<and>
        m ''version'' = Some (JStr ''1.0.0'')"
    by auto
  have 4: "sites (getConfig abc_store) = [plain_site ''a'' 1, plain_site ''b'' 2, plain_site ''c'' 3]"
    by (simp add: getSites_abc_config)
  from 1 2 3 4 v show ?thesis by blast
qed

text \<open>
  Claim C8 as it is worded (every valid stored configuration) fails on documents that
  pass the shape check. When the stored settings lack a field, the import of the export
  has the default value of the field, which the configuration before the export had not;
  and when the stored document has a property of its own besides the three, here an
  \<open>exportDate\<close>, the configuration before the export has it and the imported one has not.
\<close>

theorem roundtrip_changes_configuration:
  "isValidConfig_json (Some one_setting_doc) \<and>
   getConfig_json (GetResolved (Some one_setting_doc)) = one_setting_doc \<and>
   get_prop (get_prop (Some one_setting_doc) ''settings'') ''defaultSiteId'' = None \<and>
   (case fst (importConfig (exportConfig ''2024-05-01T10:00:00.000Z'' (Some one_setting_doc))
                (Some one_setting_doc)) of
      Inl e \<Rightarrow> None
    | Inr r \<Rightarrow> get_prop (get_prop (Some r) ''settings'') ''defaultSiteId'') =
     Some (JStr ''github_dev'') \<and>
   fst (importConfig (exportConfig ''2024-05-01T10:00:00.000Z'' (Some one_setting_doc))
          (Some one_setting_doc)) \<noteq>
     Inr (getConfig_json (GetResolved (Some one_setting_doc))) \<and>
   isValidConfig_json (Some dated_doc) \<and>
   getConfig_json (GetResolved (Some dated_doc)) = dated_doc \<and>
   get_prop (Some dated_doc) ''exportDate'' = Some (JStr ''2024-05-01T10:00:00.000Z'') \<and>
   (case fst (importConfig (exportConfig ''2025-01-01T00:00:00.000Z'' (Some dated_doc))
                (Some dated_doc)) of
      Inl e \<Rightarrow> Some JNull
    | Inr r \<Rightarrow> get_prop (Some r) ''exportDate'') = None \<and>
   fst (importConfig (exportConfig ''2025-01-01T00:00:00.000Z'' (Some dated_doc))
          (Some dated_doc)) \<noteq>
     Inr (getConfig_json (GetResolved (Some dated_doc)))"
proof -
  have v1: "isValidConfig_json (Some one_setting_doc)"
    by (simp add: one_setting_doc_def isValidConfig_json_def)
  have g1: "getConfig_json (GetResolved (Some one_setting_doc)) = one_setting_doc"
    using v1
    by (simp add: getConfig_json_def migrateConfig_json_def default_version isValidConfig_json_def)
       (simp add: one_setting_doc_def)
  have a1: "get_prop (get_prop (Some one_setting_doc) ''settings'') ''defaultSiteId'' = None"
    by (simp add: one_setting_doc_def)
  let ?x1 = "JObj ((own (Some one_setting_doc))(''exportDate'' \<mapsto> JStr ''2024-05-01T10:00:00.000Z''))"
  have e1: "exportConfig ''2024-05-01T10:00:00.000Z'' (Some one_setting_doc) = Json ?x1"
    by (simp add: exportConfig_def JSON_stringify_def Let_def g1)
  have vx1: "isValidConfig_json (Some ?x1)"
    by (simp add: one_setting_doc_def isValidConfig_json_def)
  from import_valid [OF vx1, of "Some one_setting_doc"]
  have i1: "fst (importConfig (Json ?x1) (Some one_setting_doc)) = Inr (mergeWithDefault ?x1)"
    by simp
  from import_valid [OF vx1, of None]
  have "mergeWithDefault ?x1 =
           JObj [''version'' \<mapsto> JStr ''1.0.0'', ''sites'' \<mapsto> the (get_prop (Some ?x1) ''sites''),
                 ''settings'' \<mapsto> JObj (own (Some (enc_settings DEFAULT_SETTINGS)) ++
                                          own (get_prop (Some ?x1) ''settings''))]"
    by blast
  then have "get_prop (get_prop (Some (mergeWithDefault ?x1)) ''settings'') ''defaultSiteId'' =
      Some (JStr ''github_dev'')"
    by (simp add: one_setting_doc_def enc_settings_def DEFAULT_SETTINGS_def map_add_def)
  with i1 have b1: "(case fst (importConfig (exportConfig ''2024-05-01T10:00:00.000Z'' (Some one_setting_doc))
                (Some one_setting_doc)) of
      Inl e \<Rightarrow> None
    | Inr r \<Rightarrow> get_prop (get_prop (Some r) ''settings'') ''defaultSiteId'') =
     Some (JStr ''github_dev'')"
    unfolding e1 by simp
  have v2: "isValidConfig_json (Some dated_doc)"
    by (simp add: dated_doc_def isValidConfig_json_def enc_settings_def)
  have g2: "getConfig_json (GetResolved (Some dated_doc)) = dated_doc"
    using v2
    by (simp add: getConfig_json_def migrateConfig_json_def default_version isValidConfig_json_def)
       (simp add: dated_doc_def)
  have a2: "get_prop (Some dated_doc) ''exportDate'' = Some (JStr ''2024-05-01T10:00:00.000Z'')"
    by (simp add: dated_doc_def)
  let ?x2 = "JObj ((own (Some dated_doc))(''exportDate'' \<mapsto> JStr ''2025-01-01T00:00:00.000Z''))"
  have e2: "exportConfig ''2025-01-01T00:00:00.000Z'' (Some dated_doc) = Json ?x2"
    by (simp add: exportConfig_def JSON_stringify_def Let_def g2)
  have vx2: "isValidConfig_json (Some ?x2)"
    by (simp add: dated_doc_def isValidConfig_json_def enc_settings_def)
  from import_valid [OF vx2, of "Some dated_doc"]
  have i2: "fst (importConfig (Json ?x2) (Some dated_doc)) = Inr (mergeWithDefault ?x2)"
    by simp
  from import_valid [OF vx2, of None]
  have "mergeWithDefault ?x2 =
           JObj [''version'' \<mapsto> JStr ''1.0.0'', ''sites'' \<mapsto> the (get_prop (Some ?x2) ''sites''),
                 ''settings'' \<mapsto> JObj (own (Some (enc_settings DEFAULT_SETTINGS)) ++
                                          own (get_prop (Some ?x2) ''settings''))]"
    by blast
  then have "get_prop (Some (mergeWithDefault ?x2)) ''exportDate'' = None"
    by simp
  with i2 have b2: "(case fst (importConfig (exportConfig ''2025-01-01T00:00:00.000Z'' (Some dated_doc))
                (Some dated_doc)) of
      Inl e \<Rightarrow> Some JNull
    | Inr r \<Rightarrow> get_prop (Some r) ''exportDate'') = None"
    unfolding e2 by simp
  have n1: "fst (importConfig (exportConfig ''2024-05-01T10:00:00.000Z'' (Some one_setting_doc))
          (Some one_setting_doc)) \<noteq>
     Inr (getConfig_json (GetResolved (Some one_setting_doc)))"
    using a1 b1 unfolding g1 by auto
  have n2: "fst (importConfig (exportConfig ''2025-01-01T00:00:00.000Z'' (Some dated_doc))
          (Some dated_doc)) \<noteq>
     Inr (getConfig_json (GetResolved (Some dated_doc)))"
    using a2 b2 unfolding g2 by auto
  from v1 g1 a1 b1 n1 v2 g2 a2 b2 n2 show ?thesis by blast
qed
section \<open>Shortcut conflicts and suggestions\<close>

lemma findIndex_Some:
  "findIndex P xs = Some n \<Longrightarrow> n < length xs \<and> P (xs ! n) \<and> (\<forall>m<n. \<not> P (xs ! m))"
proof (induction xs arbitrary: n)
  case Nil
  then show ?case by simp
next
  case (Cons x xs)
  show ?case
  proof (cases "P x")
    case True
    with Cons.prems show ?thesis by simp
  next
    case False
    with Cons.prems obtain k where k: "findIndex P xs = Some k" "n = Suc k"
      by auto
    from Cons.IH [OF k(1)] False k(2) show ?thesis
      by (auto simp: nth_Cons split: nat.splits)
  qed
qed

lemma findIndex_None: "findIndex P xs = None \<longleftrightarrow> (\<forall>x\<in>set xs. \<not> P x)"
  by (induction xs) auto

lemma findIndex_present: "x \<in> set xs \<Longrightarrow> P x \<Longrightarrow> \<exists>n. findIndex P xs = Some n"
  using findIndex_None [of P xs] by (cases "findIndex P xs") auto

lemma shortcut_on_active:
  "shortcut_on s \<longleftrightarrow> active_chord s = Some (fst (formatShortcutString (the (shortcuts s))))"
  by (auto simp: shortcut_on_def active_chord_def split: option.splits)

lemma active_chord_Some: "active_chord s = Some c \<Longrightarrow> shortcut_on s"
  by (auto simp: shortcut_on_def active_chord_def split: option.splits if_splits)

lemma conflicts_loop_fst:
  "fst (conflicts_loop ex str ss) =
     map (\<lambda>s. \<lparr>siteId = site_id s, siteName = name s,
               shortcut = snd (formatShortcutString (the (shortcuts s)))\<rparr>)
         (filter (\<lambda>s. site_id s \<noteq> ex \<and> active_chord s = Some str) ss)"
proof (induction ss)
  case Nil
  then show ?case by simp
next
  case (Cons s ss)
  show ?case
  proof (cases "site_id s \<noteq> ex \<and> shortcut_on s")
    case True
    then have a: "active_chord s = Some (fst (formatShortcutString (the (shortcuts s))))"
      using shortcut_on_active by blast
    show ?thesis using True a Cons.IH
      by (auto simp: split_beta Let_def)
  next
    case False
    then have "\<not> (site_id s \<noteq> ex \<and> active_chord s = Some str)"
      using active_chord_Some by blast
    with False Cons.IH show ?thesis
      by (auto simp: split_beta Let_def)
  qed
qed

lemma conflicts_loop_snd:
  "snd (conflicts_loop ex str ss) =
     map (\<lambda>s. if site_id s \<noteq> ex \<and> shortcut_on s
              then s\<lparr>shortcuts := Some (snd (formatShortcutString (the (shortcuts s))))\<rparr> else s) ss"
  by (induction ss) (auto simp: split_beta Let_def)

text \<open>
  Claim C2. When the site \<open>i\<close> exists, the chord is enabled and some site with another id
  has an enabled shortcut with the same canonical string, \<open>updateSiteShortcut\<close> rejects with
  the conflict error, which carries the names of all such sites, and the store is the one
  it started from.
\<close>

theorem updateSiteShortcut_conflict:
  assumes "i \<in> site_id ` set (getSites st)"
    and "chord_enabled sh = Some True"
    and "other \<in> set (getSites st)"
    and "site_id other \<noteq> i"
    and "active_chord other = Some (fst (formatShortcutString sh))"
  shows "\<exists>names. updateSiteShortcut i (Some sh) st = (Inl (ShortcutConflictError names), st) \<and>
           name other \<in> set names \<and>
           names = map name (filter (\<lambda>s. site_id s \<noteq> i \<and>
                       active_chord s = Some (fst (formatShortcutString sh))) (getSites st))"
proof -
  let ?ss = "getSites st"
  let ?str = "fst (formatShortcutString sh)"
  let ?hit = "filter (\<lambda>s. site_id s \<noteq> i \<and> active_chord s = Some ?str) ?ss"
  from assms(1) obtain n where n: "findIndex (\<lambda>site. site_id site = i) ?ss = Some n"
    using findIndex_present [of _ ?ss "\<lambda>site. site_id site = i"] by auto
  have c: "fst (checkShortcutConflicts ?ss i sh) =
             map (\<lambda>s. \<lparr>siteId = site_id s, siteName = name s,
                       shortcut = snd (formatShortcutString (the (shortcuts s)))\<rparr>) ?hit"
    by (simp add: checkShortcutConflicts_def split_beta conflicts_loop_fst)
  have "other \<in> set ?hit" using assms(3-5) by simp
  then have ne: "?hit \<noteq> []" and nm: "name other \<in> set (map name ?hit)"
    by (force, force)
  have names: "map siteName (fst (checkShortcutConflicts ?ss i sh)) = map name ?hit"
    by (simp add: c comp_def)
  have "updateSiteShortcut i (Some sh) st = (Inl (ShortcutConflictError (map name ?hit)), st)"
    using n assms(2) ne names c
    by (simp add: updateSiteShortcut_def Let_def split_beta)
  with nm show ?thesis by blast
qed

theorem updateSiteShortcut_conflict_witness:
  "''github_dev'' \<in> site_id ` set (getSites Absent) \<and>
   DEFAULT_SITES ! 0 \<in> set (getSites Absent) \<and>
   site_id (DEFAULT_SITES ! 0) = ''github1s'' \<and>
   active_chord (DEFAULT_SITES ! 0) = Some ''ctrl+shift+1'' \<and>
   updateSiteShortcut ''github_dev''
     (Some \<lparr>key = ''1'', modifiers = [''ctrl'', ''shift''], chord_enabled = Some True\<rparr>) Absent =
   (Inl (ShortcutConflictError [''GitHub1s'']), Absent)"
proof -
  let ?sh = "\<lparr>key = ''1'', modifiers = [''ctrl'', ''shift''], chord_enabled = Some True\<rparr>"
  let ?other = "DEFAULT_SITES ! 0"
  have g: "getSites Absent = DEFAULT_SITES"
    by (simp add: getSites_def getConfig_def getDefaultConfig_def DEFAULT_CONFIG_def)
  have f: "fst (formatShortcutString ?sh) = ''ctrl+shift+1''" by code_simp
  have 1: "''github_dev'' \<in> site_id ` set (getSites Absent)"
    by (simp add: g DEFAULT_SITES_def)
  have 2: "chord_enabled ?sh = Some True" by simp
  have 3: "?other \<in> set (getSites Absent)" by (simp add: g DEFAULT_SITES_def)
  have 4: "site_id ?other \<noteq> ''github_dev''" "site_id ?other = ''github1s''"
    by (simp_all add: DEFAULT_SITES_def)
  have 5: "active_chord ?other = Some (fst (formatShortcutString ?sh))"
    unfolding f by code_simp
  have l: "map name (filter (\<lambda>s. site_id s \<noteq> ''github_dev'' \<and>
             active_chord s = Some ''ctrl+shift+1'') DEFAULT_SITES) = [''GitHub1s'']"
    by code_simp
  from updateSiteShortcut_conflict [OF 1 2 3 4(1) 5]
  have "updateSiteShortcut ''github_dev'' (Some ?sh) Absent =
          (Inl (ShortcutConflictError [''GitHub1s'']), Absent)"
    by (simp add: g f l)
  with 1 3 4 5 f show ?thesis by simp
qed

lemma usedShortcuts_set:
  "set (usedShortcuts i ss) = {c. \<exists>s\<in>set ss. site_id s \<noteq> i \<and> active_chord s = Some c}"
proof (induction ss)
  case Nil
  then show ?case by simp
next
  case (Cons s ss)
  show ?case
  proof (cases "site_id s \<noteq> i \<and> shortcut_on s")
    case True
    then have "active_chord s = Some (fst (formatShortcutString (the (shortcuts s))))"
      using shortcut_on_active by blast
    with True Cons.IH show ?thesis by auto
  next
    case False
    then have "\<And>c. \<not> (site_id s \<noteq> i \<and> active_chord s = Some c)"
      using active_chord_Some by blast
    with False Cons.IH show ?thesis by auto
  qed
qed

lemma suggest_loop_find:
  "sort bm = bm \<Longrightarrow>
   suggest_loop used bm ks =
     map_option (\<lambda>k. \<lparr>key = k, modifiers = bm, chord_enabled = Some True\<rparr>)
       (find (\<lambda>k. js_join ''+'' (bm @ [k]) \<notin> set used) ks)"
  by (induction ks) (auto simp: formatShortcutString_def Let_def)

lemma sort_ctrl_shift: "sort [''ctrl'', ''shift''] = [''ctrl'', ''shift'']"
  by code_simp

lemma getSuggestedShortcut_find:
  "getSuggestedShortcut i st =
     map_option (\<lambda>k. \<lparr>key = k, modifiers = [''ctrl'', ''shift''], chord_enabled = Some True\<rparr>)
       (find (\<lambda>k. \<not> chord_taken i st k) (keys_of ''1234567890''))"
proof -
  have "(\<lambda>k. js_join ''+'' ([''ctrl'', ''shift''] @ [k]) \<notin> set (usedShortcuts i (getSites st))) =
        (\<lambda>k. \<not> chord_taken i st k)"
    by (auto simp: usedShortcuts_set chord_taken_def)
  then show ?thesis
    by (simp add: getSuggestedShortcut_def suggest_loop_find [OF sort_ctrl_shift])
qed

lemma getSites_Absent: "getSites Absent = DEFAULT_SITES"
  by (simp add: getSites_def getConfig_def getDefaultConfig_def DEFAULT_CONFIG_def)

lemma default_chords:
  "map active_chord DEFAULT_SITES =
     [Some ''ctrl+shift+1'', Some ''ctrl+shift+2'', Some ''ctrl+shift+3'', Some ''ctrl+shift+4'',
      Some ''ctrl+shift+5'']"
  by code_simp

text \<open>
  Claim C5, as the code has it. \<open>getSuggestedShortcut\<close> tries the keys in the order
  1, 2, ..., 9, 0 with the modifiers ctrl and shift and returns the first chord that no
  site with another id has as its enabled shortcut, whether that site is itself enabled
  or disabled; it returns nothing exactly when all ten are taken. On the default
  configuration, for an id that is none of the five built-in ones, it returns the key 6.
\<close>

theorem getSuggestedShortcut_scan:
  "(getSuggestedShortcut i st = None \<longleftrightarrow> (\<forall>k\<in>set (keys_of ''1234567890''). chord_taken i st k)) \<and>
   (\<forall>n<10. \<not> chord_taken i st (keys_of ''1234567890'' ! n) \<and>
            (\<forall>m<n. chord_taken i st (keys_of ''1234567890'' ! m)) \<longrightarrow>
        getSuggestedShortcut i st =
          Some \<lparr>key = keys_of ''1234567890'' ! n, modifiers = [''ctrl'', ''shift''],
                chord_enabled = Some True\<rparr>) \<and>
   (i \<notin> site_id ` set DEFAULT_SITES \<longrightarrow>
        getSuggestedShortcut i Absent =
          Some \<lparr>key = ''6'', modifiers = [''ctrl'', ''shift''], chord_enabled = Some True\<rparr>)"
proof (intro conjI allI impI)
  show "getSuggestedShortcut i st = None \<longleftrightarrow> (\<forall>k\<in>set (keys_of ''1234567890''). chord_taken i st k)"
    by (auto simp: getSuggestedShortcut_find find_None_iff)
next
  fix n :: nat
  let ?ks = "keys_of ''1234567890''"
  assume n: "n < 10"
    and f: "\<not> chord_taken i st (?ks ! n) \<and> (\<forall>m<n. chord_taken i st (?ks ! m))"
  have len: "length ?ks = 10" by (simp add: keys_of_def)
  have "find (\<lambda>k. \<not> chord_taken i st k) ?ks = Some (?ks ! n)"
    unfolding find_Some_iff using n f len by auto
  then show "getSuggestedShortcut i st =
          Some \<lparr>key = ?ks ! n, modifiers = [''ctrl'', ''shift''], chord_enabled = Some True\<rparr>"
    by (simp add: getSuggestedShortcut_find)
next
  assume i: "i \<notin> site_id ` set DEFAULT_SITES"
  have t: "chord_taken i Absent k \<longleftrightarrow> Some (''ctrl+shift+'' @ k) \<in> set (map active_chord DEFAULT_SITES)" for k
    using i by (force simp: chord_taken_def getSites_Absent image_iff)
  show "getSuggestedShortcut i Absent =
          Some \<lparr>key = ''6'', modifiers = [''ctrl'', ''shift''], chord_enabled = Some True\<rparr>"
    by (simp add: getSuggestedShortcut_find t default_chords keys_of_def)
qed

theorem getSuggestedShortcut_scan_witness:
  "''custom-a-1'' \<notin> site_id ` set DEFAULT_SITES \<and>
   getSuggestedShortcut ''custom-a-1'' Absent =
     Some \<lparr>key = ''6'', modifiers = [''ctrl'', ''shift''], chord_enabled = Some True\<rparr> \<and>
   \<not> chord_taken ''github_dev'' Absent ''2'' \<and> chord_taken ''github_dev'' Absent ''1'' \<and>
   getSuggestedShortcut ''github_dev'' Absent =
     Some \<lparr>key = ''2'', modifiers = [''ctrl'', ''shift''], chord_enabled = Some True\<rparr>"
proof -
  have i: "''custom-a-1'' \<notin> site_id ` set DEFAULT_SITES"
    by (simp add: DEFAULT_SITES_def)
  have t: "chord_taken ''github_dev'' Absent k \<longleftrightarrow>
             Some (''ctrl+shift+'' @ k) \<in> set (map active_chord
               (filter (\<lambda>s. site_id s \<noteq> ''github_dev'') DEFAULT_SITES))" for k
    by (force simp: chord_taken_def getSites_Absent image_iff)
  have fl: "map active_chord (filter (\<lambda>s. site_id s \<noteq> ''github_dev'') DEFAULT_SITES) =
      [Some ''ctrl+shift+1'', Some ''ctrl+shift+3'', Some ''ctrl+shift+4'', Some ''ctrl+shift+5'']"
    by code_simp
  have a: "\<not> chord_taken ''github_dev'' Absent ''2''" and b: "chord_taken ''github_dev'' Absent ''1''"
    by (simp_all add: t fl)
  have k: "keys_of ''1234567890'' ! 1 = ''2''" "keys_of ''1234567890'' ! 0 = ''1''"
    by (simp_all add: keys_of_def)
  from getSuggestedShortcut_scan [of "''custom-a-1''" Absent] i
  have 1: "getSuggestedShortcut ''custom-a-1'' Absent =
     Some \<lparr>key = ''6'', modifiers = [''ctrl'', ''shift''], chord_enabled = Some True\<rparr>"
    by blast
  from getSuggestedShortcut_scan [of "''github_dev''" Absent]
  have "\<forall>n<10. \<not> chord_taken ''github_dev'' Absent (keys_of ''1234567890'' ! n) \<and>
            (\<forall>m<n. chord_taken ''github_dev'' Absent (keys_of ''1234567890'' ! m)) \<longrightarrow>
        getSuggestedShortcut ''github_dev'' Absent =
          Some \<lparr>key = keys_of ''1234567890'' ! n, modifiers = [''ctrl'', ''shift''],
                chord_enabled = Some True\<rparr>"
    by blast
  from this [rule_format, of 1] a b k
  have 2: "getSuggestedShortcut ''github_dev'' Absent =
     Some \<lparr>key = ''2'', modifiers = [''ctrl'', ''shift''], chord_enabled = Some True\<rparr>"
    by (simp add: less_Suc_eq)
  from i 1 2 a b show ?thesis by simp
qed

text \<open>
  Claim C5 as it is worded fails in two ways. The keys are not tried in ascending order
  from 0: on the default configuration, asked for the site github1s, the chord
  ctrl+shift+0 is free and 0 comes before 1, yet the key returned is 1. And a chord
  counts as in use when its site is disabled: after github1s has been disabled it is the
  only site with the chord ctrl+shift+1, no enabled site has this chord, yet for a new
  site the key returned is 6.
\<close>

theorem getSuggestedShortcut_not_ascending:
  "getSuggestedShortcut ''github1s'' Absent =
     Some \<lparr>key = ''1'', modifiers = [''ctrl'', ''shift''], chord_enabled = Some True\<rparr> \<and>
   \<not> chord_taken ''github1s'' Absent ''0'' \<and> ''0'' < ''1'' \<and>
   map site_id (getSites github1s_off_store) =
     [''github1s'', ''github_dev'', ''sourcegraph'', ''zread'', ''deepwiki''] \<and>
   map enabled (getSites github1s_off_store) = [False, True, True, True, True] \<and>
   map active_chord (getSites github1s_off_store) =
     [Some ''ctrl+shift+1'', Some ''ctrl+shift+2'', Some ''ctrl+shift+3'', Some ''ctrl+shift+4'',
      Some ''ctrl+shift+5''] \<and>
   getSuggestedShortcut ''custom-a-1'' github1s_off_store =
     Some \<lparr>key = ''6'', modifiers = [''ctrl'', ''shift''], chord_enabled = Some True\<rparr>"
proof -
  have t: "chord_taken ''github1s'' Absent k \<longleftrightarrow>
             Some (''ctrl+shift+'' @ k) \<in> set (map active_chord
               (filter (\<lambda>s. site_id s \<noteq> ''github1s'') DEFAULT_SITES))" for k
    by (force simp: chord_taken_def getSites_Absent image_iff)
  have fl: "map active_chord (filter (\<lambda>s. site_id s \<noteq> ''github1s'') DEFAULT_SITES) =
      [Some ''ctrl+shift+2'', Some ''ctrl+shift+3'', Some ''ctrl+shift+4'', Some ''ctrl+shift+5'']"
    by code_simp
  have 1: "getSuggestedShortcut ''github1s'' Absent =
     Some \<lparr>key = ''1'', modifiers = [''ctrl'', ''shift''], chord_enabled = Some True\<rparr>"
    by (simp add: getSuggestedShortcut_find t fl keys_of_def)
  have 2: "\<not> chord_taken ''github1s'' Absent ''0''"
    by (simp add: t fl)
  have 3: "''0'' < ''1''" by code_simp
  have 4: "map site_id (getSites github1s_off_store) =
     [''github1s'', ''github_dev'', ''sourcegraph'', ''zread'', ''deepwiki'']"
    by code_simp
  have 5: "map enabled (getSites github1s_off_store) = [False, True, True, True, True]"
    by code_simp
  have 6: "map active_chord (getSites github1s_off_store) =
     [Some ''ctrl+shift+1'', Some ''ctrl+shift+2'', Some ''ctrl+shift+3'', Some ''ctrl+shift+4'',
      Some ''ctrl+shift+5'']"
    by code_simp
  have 7: "getSuggestedShortcut ''custom-a-1'' github1s_off_store =
     Some \<lparr>key = ''6'', modifiers = [''ctrl'', ''shift''], chord_enabled = Some True\<rparr>"
    by code_simp
  from 1 2 3 4 5 6 7 show ?thesis by simp
qed

section \<open>Deleting, toggling and reordering sites\<close>

lemma find_filter:
  "find P xs = (case filter P xs of [] \<Rightarrow> None | x # _ \<Rightarrow> Some x)"
  by (induction xs) auto

lemma filter_single:
  assumes "filter P xs = [s]"
  shows "\<exists>n. findIndex P xs = Some n \<and> n < length xs \<and> xs ! n = s \<and>
             (\<forall>y. xs[n := y] = map (\<lambda>x. if x = s then y else x) xs) \<and>
             filter (\<lambda>x. \<not> P x) xs = remove1 s xs"
  using assms
proof (induction xs)
  case Nil
  then show ?case by simp
next
  case (Cons x xs)
  have "s \<in> set (filter P (x # xs))" by (simp only: Cons.prems list.set_intros)
  then have Ps: "P s" unfolding set_filter by blast
  show ?case
  proof (cases "P x")
    case True
    with Cons.prems have x: "x = s" and none: "filter P xs = []" by auto
    from none have np: "\<forall>z\<in>set xs. \<not> P z" by (simp add: filter_empty_conv)
    with Ps have ns: "\<forall>z\<in>set xs. z \<noteq> s" by auto
    have "map (\<lambda>z. if z = s then y else z) xs = xs" for y
      using ns by (intro map_idI) auto
    moreover have "filter (\<lambda>z. \<not> P z) xs = xs"
      using np by (simp add: filter_id_conv)
    ultimately show ?thesis using True x by simp
  next
    case False
    with Cons.prems have f: "filter P xs = [s]" by simp
    from False Ps have xs: "x \<noteq> s" by auto
    from Cons.IH [OF f] obtain n where n: "findIndex P xs = Some n" "n < length xs" "xs ! n = s"
      "\<forall>y. xs[n := y] = map (\<lambda>x. if x = s then y else x) xs"
      "filter (\<lambda>x. \<not> P x) xs = remove1 s xs"
      by blast
    with False xs show ?thesis by simp
  qed
qed

lemma distinct_only_site:
  "distinct (map site_id ss) \<Longrightarrow> s \<in> set ss \<Longrightarrow> only_site_with_id s ss"
  unfolding only_site_with_id_def
proof (induction ss)
  case Nil
  then show ?case by simp
next
  case (Cons x ss)
  show ?case
  proof (cases "x = s")
    case True
    with Cons.prems have "\<forall>z\<in>set ss. site_id z \<noteq> site_id s" by (auto simp: image_iff)
    then have "filter (\<lambda>t. site_id t = site_id s) ss = []" by (simp add: filter_empty_conv)
    with True show ?thesis by simp
  next
    case False
    with Cons.prems have "s \<in> set ss" "distinct (map site_id ss)" "site_id x \<noteq> site_id s"
      by (auto simp: image_iff)
    with Cons.IH show ?thesis by simp
  qed
qed

lemma settings_after_saveSites:
  "settings (getConfig (as_stored ((getConfig st)\<lparr>sites := ss\<rparr>))) = settings (getConfig st)"
  by (simp add: getConfig_after_saveSites)

text \<open>
  Claim C6, as the code has it. \<open>deleteSite\<close> on an id that no site has rejects with the
  error that the site does not exist, and \<open>toggleSite\<close> with \<open>false\<close> on an id that some
  site has succeeds and stores a site with this id and \<open>enabled = false\<close>. For a site that
  is the only one with its id (both functions find a site by its id): if it is built-in,
  \<open>deleteSite\<close> on its id rejects with the error that built-in sites cannot be deleted and
  leaves the store as it was, while \<open>toggleSite\<close> with \<open>false\<close> on the same id returns the
  site with \<open>enabled = false\<close> and stores the list with this site so changed and every
  other site as it was; if it is not built-in, \<open>deleteSite\<close> on its id succeeds and stores
  the list without this one site, the settings being as before.
\<close>

theorem deleteSite_toggleSite:
  "(i \<notin> site_id ` set (getSites st) \<longrightarrow> deleteSite i st = (Inl SiteDoesNotExist, st)) \<and>
   (i \<in> site_id ` set (getSites st) \<longrightarrow>
      (\<exists>s' st'. toggleSite i False st = (Inr s', st') \<and> site_id s' = i \<and> \<not> enabled s' \<and>
               s' \<in> set (getSites st'))) \<and>
   (only_site_with_id s (getSites st) \<longrightarrow>
      (isBuiltIn s \<longrightarrow>
          deleteSite (site_id s) st = (Inl BuiltInNotDeletable, st) \<and>
          (\<exists>st'. toggleSite (site_id s) False st = (Inr (s\<lparr>enabled := False\<rparr>), st') \<and>
                 getSites st' =
                   map (\<lambda>x. if x = s then s\<lparr>enabled := False\<rparr> else x) (getSites st))) \<and>
      (\<not> isBuiltIn s \<longrightarrow>
          (\<exists>st'. deleteSite (site_id s) st = (Inr (), st') \<and>
                 getSites st' = remove1 s (getSites st) \<and>
                 settings (getConfig st') = settings (getConfig st))))"
proof (intro conjI impI)
  assume "i \<notin> site_id ` set (getSites st)"
  then have "find (\<lambda>s. site_id s = i) (getSites st) = None"
    by (auto simp: find_None_iff)
  then show "deleteSite i st = (Inl SiteDoesNotExist, st)"
    by (simp add: deleteSite_def)
next
  let ?ss = "getSites st"
  assume "i \<in> site_id ` set ?ss"
  then obtain n where n: "findIndex (\<lambda>site. site_id site = i) ?ss = Some n"
    using findIndex_present [of _ ?ss "\<lambda>site. site_id site = i"] by auto
  from findIndex_Some [OF n] have l: "n < length ?ss" and id: "site_id (?ss ! n) = i"
    by auto
  let ?s' = "(?ss ! n)\<lparr>enabled := False\<rparr>"
  let ?st' = "as_stored ((getConfig st)\<lparr>sites := ?ss[n := ?s']\<rparr>)"
  have "toggleSite i False st = (Inr ?s', ?st')"
    using n
    by (simp add: toggleSite_def updateSite_def Let_def spread_site_def saveSites_ok truthy_def
        no_updates_def)
  moreover have "?s' \<in> set (getSites ?st')"
    using l by (simp add: getSites_after_saveSites set_update_memI)
  ultimately show "\<exists>s' st'. toggleSite i False st = (Inr s', st') \<and> site_id s' = i \<and>
                     \<not> enabled s' \<and> s' \<in> set (getSites st')"
    using id by auto
next
  assume o: "only_site_with_id s (getSites st)" and b: "isBuiltIn s"
  let ?ss = "getSites st"
  from o have f: "filter (\<lambda>t. site_id t = site_id s) ?ss = [s]"
    by (simp add: only_site_with_id_def)
  from f b show "deleteSite (site_id s) st = (Inl BuiltInNotDeletable, st)"
    by (simp add: deleteSite_def find_filter)
  from filter_single [OF f] obtain n
    where n: "findIndex (\<lambda>x. site_id x = site_id s) ?ss = Some n" "?ss ! n = s"
      and u: "\<forall>y. ?ss[n := y] = map (\<lambda>x. if x = s then y else x) ?ss"
    by blast
  let ?st' = "as_stored ((getConfig st)\<lparr>sites := ?ss[n := s\<lparr>enabled := False\<rparr>]\<rparr>)"
  have "toggleSite (site_id s) False st = (Inr (s\<lparr>enabled := False\<rparr>), ?st')"
    using n
    by (simp add: toggleSite_def updateSite_def Let_def spread_site_def saveSites_ok truthy_def
        no_updates_def)
  moreover have "getSites ?st' = map (\<lambda>x. if x = s then s\<lparr>enabled := False\<rparr> else x) ?ss"
    using u by (simp add: getSites_after_saveSites)
  ultimately show "\<exists>st'. toggleSite (site_id s) False st = (Inr (s\<lparr>enabled := False\<rparr>), st') \<and>
                   getSites st' = map (\<lambda>x. if x = s then s\<lparr>enabled := False\<rparr> else x) ?ss"
    by blast
next
  assume o: "only_site_with_id s (getSites st)" and b: "\<not> isBuiltIn s"
  let ?ss = "getSites st"
  from o have f: "filter (\<lambda>t. site_id t = site_id s) ?ss = [s]"
    by (simp add: only_site_with_id_def)
  let ?st' = "as_stored ((getConfig st)\<lparr>sites := filter (\<lambda>x. site_id x \<noteq> site_id s) ?ss\<rparr>)"
  from f b have "deleteSite (site_id s) st = (Inr (), ?st')"
    by (simp add: deleteSite_def saveSites_ok find_filter)
  moreover from filter_single [OF f]
  have "filter (\<lambda>x. site_id x \<noteq> site_id s) ?ss = remove1 s ?ss" by blast
  then have "getSites ?st' = remove1 s ?ss"
    by (simp add: getSites_after_saveSites)
  moreover have "settings (getConfig ?st') = settings (getConfig st)"
    by (rule settings_after_saveSites)
  ultimately show "\<exists>st'. deleteSite (site_id s) st = (Inr (), st') \<and>
                   getSites st' = remove1 s ?ss \<and>
                   settings (getConfig st') = settings (getConfig st)"
    by blast
qed

lemma getSites_abc:
  "getSites abc_store = [plain_site ''a'' 1, plain_site ''b'' 2, plain_site ''c'' 3]"
  by (simp add: abc_store_def getSites_def getConfig_as_stored)

theorem deleteSite_toggleSite_witness:
  "list_all (\<lambda>s. only_site_with_id s (getSites Absent) \<and> isBuiltIn s \<and>
                 deleteSite (site_id s) Absent = (Inl BuiltInNotDeletable, Absent) \<and>
                 fst (toggleSite (site_id s) False Absent) = Inr (s\<lparr>enabled := False\<rparr>))
     DEFAULT_SITES \<and>
   map site_id DEFAULT_SITES = [''github1s'', ''github_dev'', ''sourcegraph'', ''zread'', ''deepwiki''] \<and>
   deleteSite ''nowhere'' Absent = (Inl SiteDoesNotExist, Absent) \<and>
   only_site_with_id (plain_site ''b'' 2) (getSites abc_store) \<and>
   fst (deleteSite ''b'' abc_store) = Inr () \<and>
   getSites (snd (deleteSite ''b'' abc_store)) = [plain_site ''a'' 1, plain_site ''c'' 3]"
proof -
  have ids: "map site_id DEFAULT_SITES =
      [''github1s'', ''github_dev'', ''sourcegraph'', ''zread'', ''deepwiki'']"
    by (simp add: DEFAULT_SITES_def)
  have d: "distinct (map site_id (getSites Absent))"
    by (simp add: getSites_Absent ids)
  have bi: "\<forall>s\<in>set DEFAULT_SITES. isBuiltIn s"
    by (simp add: DEFAULT_SITES_def)
  have nw: "''nowhere'' \<notin> site_id ` set (getSites Absent)"
    using ids by (simp add: getSites_Absent flip: set_map)
  from deleteSite_toggleSite [of "''nowhere''" Absent] nw
  have 1: "deleteSite ''nowhere'' Absent = (Inl SiteDoesNotExist, Absent)"
    by blast
  have 2: "list_all (\<lambda>s. only_site_with_id s (getSites Absent) \<and> isBuiltIn s \<and>
              deleteSite (site_id s) Absent = (Inl BuiltInNotDeletable, Absent) \<and>
              fst (toggleSite (site_id s) False Absent) = Inr (s\<lparr>enabled := False\<rparr>)) DEFAULT_SITES"
    unfolding list_all_iff
  proof
    fix s assume s: "s \<in> set DEFAULT_SITES"
    with bi have b: "isBuiltIn s" by blast
    from s have "s \<in> set (getSites Absent)" by (simp add: getSites_Absent)
    then have o: "only_site_with_id s (getSites Absent)"
      using d by (intro distinct_only_site)
    with deleteSite_toggleSite [of "''nowhere''" Absent s] b
    have "deleteSite (site_id s) Absent = (Inl BuiltInNotDeletable, Absent)"
      and "\<exists>st'. toggleSite (site_id s) False Absent = (Inr (s\<lparr>enabled := False\<rparr>), st')"
      by blast+
    with b o show "only_site_with_id s (getSites Absent) \<and> isBuiltIn s \<and>
              deleteSite (site_id s) Absent = (Inl BuiltInNotDeletable, Absent) \<and>
              fst (toggleSite (site_id s) False Absent) = Inr (s\<lparr>enabled := False\<rparr>)"
      by auto
  qed
  have o': "only_site_with_id (plain_site ''b'' 2) (getSites abc_store)"
    by (simp add: only_site_with_id_def getSites_abc plain_site_def)
  have m: "\<not> isBuiltIn (plain_site ''b'' 2)" "site_id (plain_site ''b'' 2) = ''b''"
    by (simp_all add: plain_site_def)
  from deleteSite_toggleSite [of "''nowhere''" abc_store "plain_site ''b'' 2"] o' m
  have "\<exists>st'. deleteSite ''b'' abc_store = (Inr (), st') \<and>
              getSites st' = remove1 (plain_site ''b'' 2) (getSites abc_store)"
    by fastforce
  then have 3: "fst (deleteSite ''b'' abc_store) = Inr ()"
    and 4: "getSites (snd (deleteSite ''b'' abc_store)) = [plain_site ''a'' 1, plain_site ''c'' 3]"
    by (auto simp: getSites_abc plain_site_def)
  from ids 1 2 o' 3 4 show ?thesis by simp
qed

text \<open>
  Claim C6 as it is worded (every site whose \<open>isBuiltIn\<close> flag is true) fails when a
  custom site earlier in the list has the id of a built-in site: \<open>deleteSite\<close> on that id
  succeeds and removes both, the built-in site among them.
\<close>

theorem deleteSite_removes_built_in:
  "getSites shared_id_store ! 2 = (plain_site ''a'' 3)\<lparr>isBuiltIn := True\<rparr> \<and>
   isBuiltIn (getSites shared_id_store ! 2) \<and>
   site_id (getSites shared_id_store ! 2) = ''a'' \<and>
   fst (deleteSite ''a'' shared_id_store) = Inr () \<and>
   getSites (snd (deleteSite ''a'' shared_id_store)) = [plain_site ''b'' 2]"
  by code_simp

lemma siteMap_Some:
  "map_of (rev (map (\<lambda>site. (site_id site, site)) ss)) i = Some s \<Longrightarrow> s \<in> set ss \<and> site_id s = i"
  by (auto dest!: map_of_SomeD)

lemma siteMap_defined:
  "i \<in> site_id ` set ss \<Longrightarrow> \<exists>s. map_of (rev (map (\<lambda>site. (site_id site, site)) ss)) i = Some s"
proof -
  assume "i \<in> site_id ` set ss"
  then have "i \<in> fst ` set (rev (map (\<lambda>site. (site_id site, site)) ss))"
    by (auto simp: image_iff)
  then have "map_of (rev (map (\<lambda>site. (site_id site, site)) ss)) i \<noteq> None"
    by (simp only: map_of_eq_None_iff not_not)
  then show ?thesis by blast
qed

text \<open>
  Claim C7. If some id of the input list belongs to no site, \<open>reorderSites\<close> rejects (the
  error lists the unknown ids) and the store is as it was. Otherwise it succeeds, stores the
  list it returns and leaves the settings alone; the list has one entry for each listed id,
  in the order given, the entry at position \<open>n\<close> (from 0) being a site with that id with
  \<open>order = n + 1\<close>, followed by the sites whose id is not listed, in their original relative
  order, with the order values that continue the count.
\<close>

theorem reorderSites_spec:
  "(\<not> set ids \<subseteq> site_id ` set (getSites st) \<longrightarrow>
      reorderSites ids st =
        (Inl (SitesDoNotExist (filter (\<lambda>i. i \<notin> site_id ` set (getSites st)) ids)), st)) \<and>
   (set ids \<subseteq> site_id ` set (getSites st) \<longrightarrow>
      (\<exists>all st'. reorderSites ids st = (Inr all, st') \<and> getSites st' = all \<and>
         settings (getConfig st') = settings (getConfig st) \<and>
         length all = length ids + length (filter (\<lambda>s. site_id s \<notin> set ids) (getSites st)) \<and>
         (\<forall>n<length ids. \<exists>s\<in>set (getSites st).
              site_id s = ids ! n \<and> all ! n = s\<lparr>site_order := int n + 1\<rparr>) \<and>
         (\<forall>m<length (filter (\<lambda>s. site_id s \<notin> set ids) (getSites st)).
              all ! (length ids + m) =
                (filter (\<lambda>s. site_id s \<notin> set ids) (getSites st) ! m)
                  \<lparr>site_order := int (length ids) + int m + 1\<rparr>)))"
proof (intro conjI impI)
  let ?ss = "getSites st"
  assume "\<not> set ids \<subseteq> site_id ` set ?ss"
  then have "filter (\<lambda>i. i \<notin> site_id ` set ?ss) ids \<noteq> []"
    by (auto simp: filter_empty_conv)
  then show "reorderSites ids st =
        (Inl (SitesDoNotExist (filter (\<lambda>i. i \<notin> site_id ` set ?ss) ids)), st)"
    by (simp add: reorderSites_def Let_def)
next
  let ?ss = "getSites st"
  let ?siteMap = "map_of (rev (map (\<lambda>site. (site_id site, site)) ?ss))"
  let ?re = "map (\<lambda>(index, i). (the (?siteMap i))\<lparr>site_order := int index + 1\<rparr>) (enumerate 0 ids)"
  let ?rest = "filter (\<lambda>s. site_id s \<notin> set ids) ?ss"
  let ?un = "map (\<lambda>(index, site). site\<lparr>site_order := int (length ?re) + int index + 1\<rparr>)
               (enumerate 0 ?rest)"
  let ?all = "?re @ ?un"
  let ?st' = "as_stored ((getConfig st)\<lparr>sites := ?all\<rparr>)"
  assume sub: "set ids \<subseteq> site_id ` set ?ss"
  then have "filter (\<lambda>i. i \<notin> site_id ` set ?ss) ids = []"
    by (auto simp: filter_empty_conv)
  then have r: "reorderSites ids st = (Inr ?all, ?st')"
    by (simp add: reorderSites_def Let_def saveSites_ok)
  have g: "getSites ?st' = ?all" by (rule getSites_after_saveSites)
  have se: "settings (getConfig ?st') = settings (getConfig st)"
    by (rule settings_after_saveSites)
  have lre: "length ?re = length ids" by simp
  have len: "length ?all = length ids + length ?rest" by simp
  have a: "\<exists>s\<in>set ?ss. site_id s = ids ! n \<and> ?all ! n = s\<lparr>site_order := int n + 1\<rparr>"
    if n: "n < length ids" for n
  proof -
    from n sub have "ids ! n \<in> site_id ` set ?ss" by auto
    from siteMap_defined [OF this] obtain s where s: "?siteMap (ids ! n) = Some s" by blast
    from siteMap_Some [OF s] have "s \<in> set ?ss" "site_id s = ids ! n" by auto
    moreover have "?all ! n = s\<lparr>site_order := int n + 1\<rparr>"
      using n s by (simp add: nth_append nth_enumerate_eq)
    ultimately show ?thesis by blast
  qed
  have b: "?all ! (length ids + m) = (?rest ! m)\<lparr>site_order := int (length ids) + int m + 1\<rparr>"
    if m: "m < length ?rest" for m
    using m by (simp add: nth_append nth_enumerate_eq)
  from r g se len a b
  show "\<exists>all st'. reorderSites ids st = (Inr all, st') \<and> getSites st' = all \<and>
         settings (getConfig st') = settings (getConfig st) \<and>
         length all = length ids + length ?rest \<and>
         (\<forall>n<length ids. \<exists>s\<in>set ?ss.
              site_id s = ids ! n \<and> all ! n = s\<lparr>site_order := int n + 1\<rparr>) \<and>
         (\<forall>m<length ?rest.
              all ! (length ids + m) = (?rest ! m)\<lparr>site_order := int (length ids) + int m + 1\<rparr>)"
    by blast
qed

theorem reorderSites_spec_witness:
  "set [''b'', ''a''] \<subseteq> site_id ` set (getSites abc_store) \<and>
   fst (reorderSites [''b'', ''a''] abc_store) =
     Inr [plain_site ''b'' 1, plain_site ''a'' 2, plain_site ''c'' 3] \<and>
   getSites (snd (reorderSites [''b'', ''a''] abc_store)) =
     [plain_site ''b'' 1, plain_site ''a'' 2, plain_site ''c'' 3] \<and>
   \<not> set [''b'', ''z''] \<subseteq> site_id ` set (getSites abc_store) \<and>
   reorderSites [''b'', ''z''] abc_store = (Inl (SitesDoNotExist [''z'']), abc_store)"
proof -
  let ?ss = "getSites abc_store"
  let ?ids = "[''b'', ''a'']"
  have sub: "set ?ids \<subseteq> site_id ` set ?ss"
    by (simp add: getSites_abc plain_site_def)
  have rest: "filter (\<lambda>s. site_id s \<notin> set ?ids) ?ss = [plain_site ''c'' 3]"
    by (simp add: getSites_abc plain_site_def)
  from reorderSites_spec [of ?ids abc_store] sub obtain all st'
    where r: "reorderSites ?ids abc_store = (Inr all, st')" and g: "getSites st' = all"
      and len: "length all = length ?ids + length (filter (\<lambda>s. site_id s \<notin> set ?ids) ?ss)"
      and a: "\<forall>n<length ?ids. \<exists>s\<in>set ?ss. site_id s = ?ids ! n \<and> all ! n = s\<lparr>site_order := int n + 1\<rparr>"
      and b: "\<forall>m<length (filter (\<lambda>s. site_id s \<notin> set ?ids) ?ss).
                all ! (length ?ids + m) =
                  (filter (\<lambda>s. site_id s \<notin> set ?ids) ?ss ! m)\<lparr>site_order := int (length ?ids) + int m + 1\<rparr>"
    by blast
  from len rest have l3: "length all = 3" by simp
  from a [rule_format, of 0] have a0: "all ! 0 = plain_site ''b'' 1"
    by (auto simp: getSites_abc plain_site_def)
  from a [rule_format, of 1] have a1: "all ! 1 = plain_site ''a'' 2"
    by (auto simp: getSites_abc plain_site_def)
  from b [rule_format, of 0] rest have a2: "all ! 2 = plain_site ''c'' 3"
    by (simp add: plain_site_def numeral_2_eq_2)
  have "all = [plain_site ''b'' 1, plain_site ''a'' 2, plain_site ''c'' 3]"
    using l3 a0 a1 a2 by (auto simp: list_eq_iff_nth_eq less_Suc_eq numeral_3_eq_3 numeral_2_eq_2)
  with r g have 1: "fst (reorderSites ?ids abc_store) =
      Inr [plain_site ''b'' 1, plain_site ''a'' 2, plain_site ''c'' 3]"
    and 2: "getSites (snd (reorderSites ?ids abc_store)) =
      [plain_site ''b'' 1, plain_site ''a'' 2, plain_site ''c'' 3]"
    by simp_all
  have ns: "\<not> set [''b'', ''z''] \<subseteq> site_id ` set ?ss"
    by (simp add: getSites_abc plain_site_def)
  have f: "filter (\<lambda>i. i \<notin> site_id ` set ?ss) [''b'', ''z''] = [''z'']"
    by (simp add: getSites_abc plain_site_def)
  from reorderSites_spec [of "[''b'', ''z'']" abc_store] ns f
  have 3: "reorderSites [''b'', ''z''] abc_store = (Inl (SitesDoNotExist [''z'']), abc_store)"
    by simp
  from sub 1 2 ns 3 show ?thesis by simp
qed

section \<open>Adding a site: the template check\<close>

lemma dots_then_needs_token: "dots_then tok s \<Longrightarrow> sublist tok s"
proof (induction s)
  case Nil
  then show ?case by simp
next
  case (Cons c cs)
  then have "prefix tok cs \<or> dots_then tok cs" by simp
  then have "sublist tok cs"
    using Cons.IH by (auto intro: prefix_imp_sublist)
  then show ?case by (simp add: sublist_Cons_right)
qed

lemma regex_needs_repoPath: "URL_TEMPLATE_REGEX_test s \<Longrightarrow> sublist ''{repoPath}'' s"
proof -
  assume "URL_TEMPLATE_REGEX_test s"
  then have "sublist ''{repoPath}'' (drop 8 s) \<or> sublist ''{repoPath}'' (drop 7 s)"
    unfolding URL_TEMPLATE_REGEX_test_def using dots_then_needs_token by blast
  then show ?thesis
    using sublist_order.order.trans [OF _ sublist_drop] by blast
qed

lemma validateSiteInput_needs_repoPath:
  "validateSiteInput input = None \<Longrightarrow> sublist ''{repoPath}'' (urlTemplate input)"
  by (auto simp: validateSiteInput_def regex_needs_repoPath split: if_splits)

text \<open>
  Claim C1 fails on the code. On the default configuration \<open>addSite\<close> rejects an input
  whose name, category and icon are valid and whose template starts with \<open>https://\<close> and
  contains \<open>{REPO_PATH}\<close>, with the error of the template check; and it accepts the same
  input once the template has \<open>{repoPath}\<close> in place of \<open>{REPO_PATH}\<close>, a template that
  lacks the placeholder.
\<close>

theorem addSite_rejects_documented_template:
  "addSite documented_input 17 Absent = (Inl InvalidUrlTemplate, Absent) \<and>
   fst (addSite (documented_input\<lparr>urlTemplate := ''https://example.com/{repoPath}''\<rparr>) 17 Absent) =
     Inr (documented_input\<lparr>urlTemplate := ''https://example.com/{repoPath}'',
            site_id := ''custom-example-17'', site_order := 6\<rparr>)"
  by code_simp

section \<open>Frame of the single-site mutations\<close>

lemma updateSite_frame:
  assumes "updateSite i u st = (Inr s', st')"
  shows "\<exists>n<length (getSites st).
           site_id (getSites st ! n) = i \<and> getSites st' = (getSites st)[n := s'] \<and>
           site_id s' = i \<and> isBuiltIn s' = isBuiltIn (getSites st ! n) \<and>
           settings (getConfig st') = settings (getConfig st) \<and>
           version (getConfig st') = version (getConfig st)"
proof -
  let ?ss = "getSites st"
  from assms obtain n where n: "findIndex (\<lambda>site. site_id site = i) ?ss = Some n"
    by (cases "findIndex (\<lambda>site. site_id site = i) ?ss") (auto simp: updateSite_def Let_def)
  from findIndex_Some [OF n] have l: "n < length ?ss" and id: "site_id (?ss ! n) = i"
    by auto
  let ?s = "spread_site (?ss ! n) u"
  let ?st = "as_stored ((getConfig st)\<lparr>sites := ?ss[n := ?s]\<rparr>)"
  from assms n have "s' = ?s \<and> st' = ?st"
    by (auto simp: updateSite_def Let_def saveSites_ok split: option.splits)
  moreover have "getSites ?st = ?ss[n := ?s]" by (rule getSites_after_saveSites)
  moreover have "settings (getConfig ?st) = settings (getConfig st)"
    by (rule settings_after_saveSites)
  moreover have "version (getConfig ?st) = version (getConfig st)"
    by (simp add: getConfig_version)
  moreover have "site_id ?s = i" "isBuiltIn ?s = isBuiltIn (?ss ! n)"
    using id by (simp_all add: spread_site_def)
  ultimately show ?thesis using l id by auto
qed

lemma store_shortcut_ok:
  "store_shortcut ss n sh st =
     (Inr ((ss ! n)\<lparr>shortcuts := sh\<rparr>),
      as_stored ((getConfig st)\<lparr>sites := ss[n := (ss ! n)\<lparr>shortcuts := sh\<rparr>]\<rparr>))"
  by (simp add: store_shortcut_def Let_def saveSites_ok)

lemma updateSiteShortcut_frame:
  assumes "updateSiteShortcut i sh st = (Inr s', st')"
  shows "\<exists>n<length (getSites st).
           site_id (getSites st ! n) = i \<and> getSites st' ! n = s' \<and>
           length (getSites st') = length (getSites st) \<and>
           (\<forall>m<length (getSites st). m \<noteq> n \<longrightarrow>
              (getSites st' ! m)\<lparr>shortcuts := shortcuts (getSites st ! m)\<rparr> = getSites st ! m) \<and>
           site_id s' = i \<and> isBuiltIn s' = isBuiltIn (getSites st ! n) \<and>
           settings (getConfig st') = settings (getConfig st) \<and>
           version (getConfig st') = version (getConfig st)"
proof -
  let ?ss = "getSites st"
  from assms obtain n where n: "findIndex (\<lambda>site. site_id site = i) ?ss = Some n"
    by (cases "findIndex (\<lambda>site. site_id site = i) ?ss") (auto simp: updateSiteShortcut_def Let_def)
  from findIndex_Some [OF n] have l: "n < length ?ss" and id: "site_id (?ss ! n) = i"
    by auto
  let ?ss' = "map (\<lambda>s. if site_id s \<noteq> i \<and> shortcut_on s
              then s\<lparr>shortcuts := Some (snd (formatShortcutString (the (shortcuts s))))\<rparr> else s) ?ss"
  have keep: "?ss' ! n = ?ss ! n" using l id by simp
  have other: "(?ss' ! m)\<lparr>shortcuts := shortcuts (?ss ! m)\<rparr> = ?ss ! m" if "m < length ?ss" for m
    using that by simp
  from assms n obtain ts v where
    ts: "ts = ?ss \<or> ts = ?ss'" and
    r: "s' = (ts ! n)\<lparr>shortcuts := v\<rparr>"
       "st' = as_stored ((getConfig st)\<lparr>sites := ts[n := (ts ! n)\<lparr>shortcuts := v\<rparr>]\<rparr>)"
    by (auto simp: updateSiteShortcut_def Let_def store_shortcut_ok checkShortcutConflicts_def
        split_beta conflicts_loop_snd split: option.splits if_splits)
  from ts keep have tn: "ts ! n = ?ss ! n" by auto
  from ts have tl: "length ts = length ?ss" by auto
  from ts other have to: "\<forall>m<length ?ss. (ts ! m)\<lparr>shortcuts := shortcuts (?ss ! m)\<rparr> = ?ss ! m"
    by auto
  have g: "getSites st' = ts[n := s']"
    using r by (simp add: getSites_after_saveSites)
  have "getSites st' ! n = s'" using g l tl by simp
  moreover have "length (getSites st') = length ?ss" using g tl by simp
  moreover have "\<forall>m<length ?ss. m \<noteq> n \<longrightarrow>
              (getSites st' ! m)\<lparr>shortcuts := shortcuts (?ss ! m)\<rparr> = ?ss ! m"
    using g to by simp
  moreover have "site_id s' = i" "isBuiltIn s' = isBuiltIn (?ss ! n)"
    using r tn id by simp_all
  moreover have "settings (getConfig st') = settings (getConfig st)"
    using r by (simp add: settings_after_saveSites)
  moreover have "version (getConfig st') = version (getConfig st)"
    by (simp add: getConfig_version)
  ultimately show ?thesis using l id by blast
qed

text \<open>
  Claim C10 fails on the code for \<open>updateSiteShortcut\<close>. In a store of two sites, the
  first with the enabled shortcut shift, ctrl + 7, giving the second site the shortcut
  alt + 8 succeeds, and the stored first site then has the modifiers ctrl, shift: a site
  other than the one addressed has changed.
\<close>

theorem updateSiteShortcut_changes_other_site:
  "site_id (getSites shift_ctrl_store ! 0) = ''a'' \<and>
   shortcuts (getSites shift_ctrl_store ! 0) =
     Some \<lparr>key = ''7'', modifiers = [''shift'', ''ctrl''], chord_enabled = Some True\<rparr> \<and>
   fst (updateSiteShortcut ''b''
          (Some \<lparr>key = ''8'', modifiers = [''alt''], chord_enabled = Some True\<rparr>) shift_ctrl_store) =
     Inr ((plain_site ''b'' 2)\<lparr>shortcuts :=
            Some \<lparr>key = ''8'', modifiers = [''alt''], chord_enabled = Some True\<rparr>\<rparr>) \<and>
   getSites (snd (updateSiteShortcut ''b''
          (Some \<lparr>key = ''8'', modifiers = [''alt''], chord_enabled = Some True\<rparr>) shift_ctrl_store)) ! 0 =
     (plain_site ''a'' 1)\<lparr>shortcuts :=
        Some \<lparr>key = ''7'', modifiers = [''ctrl'', ''shift''], chord_enabled = Some True\<rparr>\<rparr> \<and>
   getSites (snd (updateSiteShortcut ''b''
          (Some \<lparr>key = ''8'', modifiers = [''alt''], chord_enabled = Some True\<rparr>) shift_ctrl_store)) ! 0 \<noteq>
     getSites shift_ctrl_store ! 0"
  by code_simp
section \<open>Generating the URL of a site\<close>

lemma getSubstitution_plain:
  "CHR ''$'' \<notin> set r \<Longrightarrow> getSubstitution m p f r = r"
  by (induction m p f r rule: getSubstitution.induct) auto

lemma indexOf_None: "indexOf pat s = None \<longleftrightarrow> \<not> sublist pat s"
  by (induction s) (auto simp: sublist_Cons_right)

lemma prefix_within:
  assumes "prefix xs (ys @ zs)" and "length xs \<le> length ys"
  shows "prefix xs ys"
proof -
  from assms(1) have "prefix xs ys \<or> (\<exists>us. xs = ys @ us \<and> prefix us zs)"
    by (simp add: prefix_append)
  with assms(2) show ?thesis by auto
qed

lemma indexOf_first:
  assumes "pat \<noteq> []" and "\<not> sublist pat (a @ butlast pat)"
  shows "indexOf pat (a @ pat @ b) = Some (length a)"
  using assms(2)
proof (induction a)
  case Nil
  from assms(1) obtain c cs where "pat @ b = c # cs"
    by (cases pat) auto
  moreover have "prefix pat (pat @ b)" by simp
  ultimately show ?case by simp
next
  case (Cons x a)
  have split: "x # a @ pat @ b = (x # a @ butlast pat) @ (last pat # b)"
    using assms(1) by simp
  have len: "length pat \<le> length (x # a @ butlast pat)"
    using assms(1) by (cases pat) auto
  have "\<not> prefix pat (x # a @ pat @ b)"
  proof
    assume "prefix pat (x # a @ pat @ b)"
    then have "prefix pat ((x # a @ butlast pat) @ (last pat # b))"
      by (simp only: split)
    from prefix_within [OF this len] have "sublist pat (x # a @ butlast pat)"
      by (rule prefix_imp_sublist)
    with Cons.prems show False by simp
  qed
  moreover from Cons.prems have "\<not> sublist pat (a @ butlast pat)"
    by (simp add: sublist_Cons_right)
  ultimately show ?case using Cons.IH by simp
qed

lemma sublist_through_middle:
  assumes "sublist t (a @ r @ b)" and "set t \<inter> set r = {}" and "r \<noteq> []" and "t \<noteq> []"
  shows "sublist t a \<or> sublist t b"
proof -
  from assms(1) obtain p q where eq: "a @ r @ b = p @ t @ q"
    by (auto simp: sublist_def)
  consider "length p + length t \<le> length a" | "length a + length r \<le> length p"
    | "length a < length p + length t" "length p < length a + length r"
    by linarith
  then show ?thesis
  proof cases
    case 1
    from eq have "take (length p + length t) (a @ r @ b) = take (length p + length t) (p @ t @ q)"
      by simp
    with 1 have "take (length p + length t) a = p @ t" by simp
    then have "sublist t (take (length p + length t) a)" by simp
    then show ?thesis
      using sublist_order.order.trans [OF _ sublist_take] by blast
  next
    case 2
    have "drop (length a + length r) (a @ r @ b) = b" by simp
    with eq have "b = drop (length a + length r) (p @ t @ q)" by simp
    with 2 have "b = drop (length a + length r) p @ t @ q" by simp
    then have "sublist t b" by (metis sublist_appendI)
    then show ?thesis by simp
  next
    case 3
    define j where "j = max (length p) (length a)"
    from 3 assms(3,4) have j: "length a \<le> j" "j < length a + length r" "length p \<le> j"
      "j < length p + length t"
      by (auto simp: j_def)
    from j have ja: "\<not> j < length a" "j - length a < length r"
      and jp: "\<not> j < length p" "j - length p < length t"
      by linarith+
    from ja have "(a @ r @ b) ! j = r ! (j - length a)" by (simp add: nth_append)
    moreover from jp have "(p @ t @ q) ! j = t ! (j - length p)" by (simp add: nth_append)
    moreover from ja jp have "r ! (j - length a) \<in> set r" "t ! (j - length p) \<in> set t"
      by simp_all
    ultimately show ?thesis using eq assms(2) by auto
  qed
qed

text \<open>
  Claim C4, as the code has it. For a \<open>repoPath\<close> that has no dollar sign:
  when the template does not contain \<open>{REPO_PATH}\<close>, \<open>generateSiteUrl\<close> returns the
  template; when the template is \<open>a\<close>, then \<open>{REPO_PATH}\<close>, then \<open>b\<close>, and no occurrence
  of the token starts inside \<open>a\<close> (this is the first one), it returns \<open>a\<close>, then
  \<open>repoPath\<close> as it is, then \<open>b\<close>; and if moreover \<open>b\<close> does not contain the token (this is
  the only one) and \<open>repoPath\<close> is \<open>owner/repo\<close>, the result contains no token.
\<close>

theorem generateSiteUrl_first_occurrence:
  assumes "CHR ''$'' \<notin> set repoPath"
  shows "(\<not> sublist ''{REPO_PATH}'' (urlTemplate site) \<longrightarrow>
            generateSiteUrl site repoPath = urlTemplate site) \<and>
         (urlTemplate site = a @ ''{REPO_PATH}'' @ b \<and>
          \<not> sublist ''{REPO_PATH}'' (a @ butlast ''{REPO_PATH}'') \<longrightarrow>
            generateSiteUrl site repoPath = a @ repoPath @ b \<and>
            (repoPath = ''owner/repo'' \<and> \<not> sublist ''{REPO_PATH}'' b \<longrightarrow>
               \<not> sublist ''{REPO_PATH}'' (generateSiteUrl site repoPath)))"
proof (intro conjI impI)
  assume "\<not> sublist ''{REPO_PATH}'' (urlTemplate site)"
  then have "indexOf ''{REPO_PATH}'' (urlTemplate site) = None"
    by (simp add: indexOf_None)
  then show "generateSiteUrl site repoPath = urlTemplate site"
    by (simp add: generateSiteUrl_def js_replace_def)
next
  assume h: "urlTemplate site = a @ ''{REPO_PATH}'' @ b \<and>
             \<not> sublist ''{REPO_PATH}'' (a @ butlast ''{REPO_PATH}'')"
  then have "indexOf ''{REPO_PATH}'' (a @ ''{REPO_PATH}'' @ b) = Some (length a)"
    by (intro indexOf_first) simp_all
  with h show r: "generateSiteUrl site repoPath = a @ repoPath @ b"
    by (simp add: generateSiteUrl_def js_replace_def Let_def getSubstitution_plain [OF assms])
  assume o: "repoPath = ''owner/repo'' \<and> \<not> sublist ''{REPO_PATH}'' b"
  have na: "\<not> sublist ''{REPO_PATH}'' a"
  proof
    assume "sublist ''{REPO_PATH}'' a"
    then have "sublist ''{REPO_PATH}'' (a @ butlast ''{REPO_PATH}'')"
      using sublist_order.order.trans [OF _ sublist_append_rightI] by blast
    with h show False by blast
  qed
  show "\<not> sublist ''{REPO_PATH}'' (generateSiteUrl site repoPath)"
  proof
    assume "sublist ''{REPO_PATH}'' (generateSiteUrl site repoPath)"
    with r o have "sublist ''{REPO_PATH}'' (a @ ''owner/repo'' @ b)" by simp
    then have "sublist ''{REPO_PATH}'' a \<or> sublist ''{REPO_PATH}'' b"
      by (rule sublist_through_middle) simp_all
    with na o show False by blast
  qed
qed

theorem generateSiteUrl_first_occurrence_witness:
  "CHR ''$'' \<notin> set ''owner/repo'' \<and>
   urlTemplate (DEFAULT_SITES ! 0) = ''https://github1s.com/'' @ ''{REPO_PATH}'' @ [] \<and>
   \<not> sublist ''{REPO_PATH}'' (''https://github1s.com/'' @ butlast ''{REPO_PATH}'') \<and>
   generateSiteUrl (DEFAULT_SITES ! 0) ''owner/repo'' = ''https://github1s.com/owner/repo'' \<and>
   \<not> sublist ''{REPO_PATH}'' (generateSiteUrl (DEFAULT_SITES ! 0) ''owner/repo'') \<and>
   \<not> sublist ''{REPO_PATH}'' (urlTemplate ((plain_site ''a'' 1)\<lparr>urlTemplate := ''https://a.io/''\<rparr>)) \<and>
   generateSiteUrl ((plain_site ''a'' 1)\<lparr>urlTemplate := ''https://a.io/''\<rparr>) ''owner/repo'' =
     ''https://a.io/''"
proof -
  have d: "CHR ''$'' \<notin> set ''owner/repo''" by simp
  have t: "urlTemplate (DEFAULT_SITES ! 0) = ''https://github1s.com/'' @ ''{REPO_PATH}'' @ []"
    by (simp add: DEFAULT_SITES_def)
  have f: "\<not> sublist ''{REPO_PATH}'' (''https://github1s.com/'' @ butlast ''{REPO_PATH}'')"
    by code_simp
  have e: "\<not> sublist ''{REPO_PATH}'' []" by simp
  have n: "\<not> sublist ''{REPO_PATH}'' (urlTemplate ((plain_site ''a'' 1)\<lparr>urlTemplate := ''https://a.io/''\<rparr>))"
    by code_simp
  from generateSiteUrl_first_occurrence [OF d, of "DEFAULT_SITES ! 0" "''https://github1s.com/''" "[]"]
    t f e
  have 1: "generateSiteUrl (DEFAULT_SITES ! 0) ''owner/repo'' =
             ''https://github1s.com/'' @ ''owner/repo'' @ []"
    and 2: "\<not> sublist ''{REPO_PATH}'' (generateSiteUrl (DEFAULT_SITES ! 0) ''owner/repo'')"
    by blast+
  from generateSiteUrl_first_occurrence
         [OF d, of "(plain_site ''a'' 1)\<lparr>urlTemplate := ''https://a.io/''\<rparr>" "[]" "[]"] n
  have 3: "generateSiteUrl ((plain_site ''a'' 1)\<lparr>urlTemplate := ''https://a.io/''\<rparr>) ''owner/repo'' =
     ''https://a.io/''"
    by simp
  from d t f 1 2 n 3 show ?thesis by simp
qed

text \<open>
  Claim C4 as it is worded fails. A template with two tokens keeps the second, so a token
  remains in the URL for \<open>owner/repo\<close>; and a \<open>repoPath\<close> that contains \<open>$&\<close> is not
  copied as it is: the matched token takes the place of these two characters.
\<close>

theorem generateSiteUrl_leaves_token:
  "generateSiteUrl ((plain_site ''a'' 1)\<lparr>urlTemplate := ''https://a.io/{REPO_PATH}/x/{REPO_PATH}''\<rparr>)
     ''owner/repo'' = ''https://a.io/owner/repo/x/{REPO_PATH}'' \<and>
   sublist ''{REPO_PATH}'' ''https://a.io/owner/repo/x/{REPO_PATH}'' \<and>
   generateSiteUrl (DEFAULT_SITES ! 0) ''a$&b'' = ''https://github1s.com/a{REPO_PATH}b''"
  by code_simp

lemma generateSiteUrl_defaults:
  "map (\<lambda>site. generateSiteUrl site ''owner/repo'') DEFAULT_SITES =
     [''https://github1s.com/owner/repo'', ''https://github.dev/owner/repo/'',
      ''https://sourcegraph.com/github.com/owner/repo'', ''https://zread.ai/owner/repo'',
      ''https://deepwiki.com/owner/repo'']"
  by code_simp


end
